theory Spec2Isabelle
  imports Complex_Main
begin

section \<open>The modelling interface the notebooks call\<close>

text \<open>
  The two notebooks build integer linear programs through the modelling interface of an
  external solver and hand them over to it. The solver itself is a black box; what the
  notebooks own is the sequence of calls that build variables, linear expressions,
  constraints and objectives. This section fixes the meaning of those calls: a variable
  is named by the family given to \<open>addVars\<close> and its index key, a linear expression is
  the list of its terms and a constant, a model is the list of its variables and
  constraints together with its objective. Coefficients are read as exact real numbers;
  rounding and the solver's tolerances are outside the model. Changes to a model take
  effect at once (the interface queues them until \<open>update\<close> or \<open>optimize\<close>; no
  property below looks at a model between a change and the next update). A range
  constraint is kept as the two-sided inequality it stands for, without the auxiliary
  variable the solver adds for it. Since a variable is known by family and key, the keys
  of one \<open>addVars\<close> call are meant to be distinct, as the index labels of a table are.
\<close>

datatype error = KeyError | AttributeError | IndexError | TypeError | ValueError | FileNotFoundError

datatype var = Var string string

fun VarName :: "var \<Rightarrow> string" where
  "VarName (Var n k) = n @ ''['' @ k @ '']''"

datatype vtype = CONTINUOUS | INTEGER | BINARY

record var_decl =
  v_ref :: var
  v_type :: vtype
  lb :: real
  ub :: "real option"

datatype linexpr = LinExpr "(real \<times> var) list" real

datatype sense = LESS_EQUAL | GREATER_EQUAL | EQUAL

datatype tempconstr = Cmp linexpr sense linexpr | Range linexpr real real

record constr =
  c_id :: nat
  ConstrName :: string
  c_body :: tempconstr

datatype objsense = MINIMIZE | MAXIMIZE

record solution =
  ObjVal :: real
  X :: "var \<Rightarrow> real"

record model =
  ModelName :: string
  vars :: "var_decl list"
  constrs :: "constr list"
  objective :: linexpr
  ModelSense :: objsense
  next_id :: nat
  solution :: "solution option"
  optimize_calls :: nat

subsection \<open>Dictionaries and loops that may raise\<close>

text \<open>
  A Python \<open>dict\<close>, a \<open>tupledict\<close> and an indexed table are association lists in
  insertion order; \<open>d[k]\<close> raises \<open>KeyError\<close> on a missing key, and \<open>d[k] = v\<close>
  replaces the value of a key already there or appends a new entry.
\<close>

definition lookup :: "('k \<times> 'v) list \<Rightarrow> 'k \<Rightarrow> error + 'v" where
  "lookup d k = (case map_of d k of None \<Rightarrow> Inl KeyError | Some v \<Rightarrow> Inr v)"

fun dict_set :: "('k \<times> 'v) list \<Rightarrow> 'k \<Rightarrow> 'v \<Rightarrow> ('k \<times> 'v) list" where
  "dict_set [] k v = [(k, v)]"
| "dict_set ((k', v') # d) k v = (if k' = k then (k, v) # d else (k', v') # dict_set d k v)"

definition and_then :: "error + 'a \<Rightarrow> ('a \<Rightarrow> error + 'b) \<Rightarrow> error + 'b" where
  "and_then r f = (case r of Inl e \<Rightarrow> Inl e | Inr a \<Rightarrow> f a)"

text \<open>A generator expression over a list: the first exception ends it.\<close>

fun for_each :: "('a \<Rightarrow> error + 'b) \<Rightarrow> 'a list \<Rightarrow> error + 'b list" where
  "for_each f [] = Inr []"
| "for_each f (k # ks) =
     (case f k of
        Inl e \<Rightarrow> Inl e
      | Inr b \<Rightarrow> (case for_each f ks of Inl e \<Rightarrow> Inl e | Inr bs \<Rightarrow> Inr (b # bs)))"

text \<open>A \<open>for\<close> statement whose body changes a state.\<close>

fun for_loop :: "('a \<Rightarrow> 's \<Rightarrow> error + 's) \<Rightarrow> 'a list \<Rightarrow> 's \<Rightarrow> error + 's" where
  "for_loop body [] s = Inr s"
| "for_loop body (k # ks) s =
     (case body k s of Inl e \<Rightarrow> Inl e | Inr s' \<Rightarrow> for_loop body ks s')"

subsection \<open>Linear expressions\<close>

definition of_var :: "var \<Rightarrow> linexpr" where
  "of_var v = LinExpr [(1, v)] 0"

definition of_const :: "real \<Rightarrow> linexpr" where
  "of_const k = LinExpr [] k"

fun expr_add :: "linexpr \<Rightarrow> linexpr \<Rightarrow> linexpr" where
  "expr_add (LinExpr ts k) (LinExpr ts' k') = LinExpr (ts @ ts') (k + k')"

fun expr_scale :: "real \<Rightarrow> linexpr \<Rightarrow> linexpr" where
  "expr_scale c (LinExpr ts k) = LinExpr (map (\<lambda>(a, v). (c * a, v)) ts) (c * k)"

text \<open>
  \<open>gp.quicksum\<close> and Python's \<open>sum\<close> over linear expressions: the terms are added up
  from zero, left to right.
\<close>

definition quicksum :: "linexpr list \<Rightarrow> linexpr" where
  "quicksum es = foldl expr_add (LinExpr [] 0) es"

text \<open>
  The operators as the cells use them, where building an operand may raise and the left
  operand is built first: \<open>v * k\<close> and \<open>k * v\<close> for a variable and a number, \<open>e1 + e2\<close>,
  a variable or a number standing for an expression, and \<open>gp.quicksum(f(c) for c in keys)\<close>.
\<close>

definition mul_vk :: "error + var \<Rightarrow> error + real \<Rightarrow> error + linexpr" where
  "mul_vk v k = and_then v (\<lambda>w. and_then k (\<lambda>r. Inr (LinExpr [(r, w)] 0)))"

definition mul_kv :: "error + real \<Rightarrow> error + var \<Rightarrow> error + linexpr" where
  "mul_kv k v = and_then k (\<lambda>r. and_then v (\<lambda>w. Inr (LinExpr [(r, w)] 0)))"

definition plus_r :: "error + linexpr \<Rightarrow> error + linexpr \<Rightarrow> error + linexpr" where
  "plus_r a b = and_then a (\<lambda>ea. and_then b (\<lambda>eb. Inr (expr_add ea eb)))"

definition variable :: "error + var \<Rightarrow> error + linexpr" where
  "variable v = and_then v (\<lambda>w. Inr (of_var w))"

definition number :: "error + real \<Rightarrow> error + linexpr" where
  "number r = and_then r (\<lambda>k. Inr (of_const k))"

definition quicksum_gen :: "(string \<Rightarrow> error + linexpr) \<Rightarrow> string list \<Rightarrow> error + linexpr" where
  "quicksum_gen f keys = and_then (for_each f keys) (\<lambda>es. Inr (quicksum es))"

text \<open>
  \<open>x.prod(d)\<close>: one term for every key of the tupledict that the coefficient dictionary
  has too; \<open>x.sum()\<close>: the sum of all its variables.
\<close>

definition tupledict_prod :: "(string \<times> var) list \<Rightarrow> (string \<times> real) list \<Rightarrow> linexpr" where
  "tupledict_prod x d =
     quicksum (concat (map (\<lambda>(k, v). case map_of d k of None \<Rightarrow> [] | Some r \<Rightarrow> [LinExpr [(r, v)] 0]) x))"

definition tupledict_sum :: "(string \<times> var) list \<Rightarrow> linexpr" where
  "tupledict_sum x = quicksum (map (\<lambda>(k, v). of_var v) x)"

text \<open>
  \<open>lhs <= rhs\<close>, \<open>lhs >= rhs\<close> and \<open>lhs == rhs\<close>, and the range \<open>lhs == [lo, hi]\<close>.
\<close>

definition compare :: "error + linexpr \<Rightarrow> sense \<Rightarrow> error + linexpr \<Rightarrow> error + tempconstr" where
  "compare l s r = and_then l (\<lambda>el. and_then r (\<lambda>er. Inr (Cmp el s er)))"

definition in_range :: "error + linexpr \<Rightarrow> real \<Rightarrow> real \<Rightarrow> error + tempconstr" where
  "in_range l lo hi = and_then l (\<lambda>el. Inr (Range el lo hi))"

text \<open>The value of an expression under an assignment, and the coefficient of a variable.\<close>

fun getValue :: "(var \<Rightarrow> real) \<Rightarrow> linexpr \<Rightarrow> real" where
  "getValue a (LinExpr ts k) = sum_list (map (\<lambda>(c, v). c * a v) ts) + k"

fun coeff :: "linexpr \<Rightarrow> var \<Rightarrow> real" where
  "coeff (LinExpr ts k) v = sum_list (map fst (filter (\<lambda>(c, w). w = v) ts))"

subsection \<open>Models\<close>

definition Model :: "string \<Rightarrow> model" where
  "Model n =
     \<lparr>ModelName = n, vars = [], constrs = [], objective = LinExpr [] 0,
      ModelSense = MINIMIZE, next_id = 0, solution = None, optimize_calls = 0\<rparr>"

text \<open>
  \<open>model.addVars(keys, vtype=t, name=n)\<close>: one variable per key, appended in the order of
  the keys, with the interface's default bounds: lower bound 0, no upper bound (1 for a
  binary variable). The result is the changed model and the tupledict of the variables.
\<close>

definition new_var :: "vtype \<Rightarrow> string \<Rightarrow> string \<Rightarrow> var_decl" where
  "new_var t n k =
     \<lparr>v_ref = Var n k, v_type = t, lb = 0, ub = (if t = BINARY then Some 1 else None)\<rparr>"

definition addVars :: "string list \<Rightarrow> vtype \<Rightarrow> string \<Rightarrow> model \<Rightarrow> model \<times> (string \<times> var) list" where
  "addVars keys t n m =
     (m\<lparr>vars := vars m @ map (new_var t n) keys\<rparr>,
      foldl (\<lambda>d k. dict_set d k (Var n k)) [] keys)"

text \<open>
  \<open>model.addConstr(c, name)\<close> appends one constraint and returns its handle;
  \<open>model.addConstrs((c(k) for k in keys), name=n)\<close> appends one constraint per key, named
  \<open>n[k]\<close>, and returns the tupledict of the handles.
\<close>

definition addConstr :: "tempconstr \<Rightarrow> string \<Rightarrow> model \<Rightarrow> model \<times> nat" where
  "addConstr c n m =
     (m\<lparr>constrs := constrs m @ [\<lparr>c_id = next_id m, ConstrName = n, c_body = c\<rparr>],
        next_id := Suc (next_id m)\<rparr>, next_id m)"

fun addConstrs_loop ::
  "(string \<Rightarrow> error + tempconstr) \<Rightarrow> string \<Rightarrow> string list \<Rightarrow> model \<Rightarrow> (string \<times> nat) list
     \<Rightarrow> error + model \<times> (string \<times> nat) list" where
  "addConstrs_loop g n [] m acc = Inr (m, acc)"
| "addConstrs_loop g n (k # ks) m acc =
     (case g k of
        Inl e \<Rightarrow> Inl e
      | Inr c \<Rightarrow>
          (case addConstr c (n @ ''['' @ k @ '']'') m of
             (m', h) \<Rightarrow> addConstrs_loop g n ks m' (dict_set acc k h)))"

definition addConstrs ::
  "(string \<Rightarrow> error + tempconstr) \<Rightarrow> string list \<Rightarrow> string \<Rightarrow> model
     \<Rightarrow> error + model \<times> (string \<times> nat) list" where
  "addConstrs g keys n m = addConstrs_loop g n keys m []"

text \<open>\<open>model.addConstr(c, name)\<close> as a statement, where building \<open>c\<close> may raise.\<close>

definition addConstr_stmt :: "error + tempconstr \<Rightarrow> string \<Rightarrow> model \<Rightarrow> error + model" where
  "addConstr_stmt c n m = and_then c (\<lambda>tc. Inr (fst (addConstr tc n m)))"

text \<open>\<open>model.remove(handles)\<close> deletes the constraints the handles stand for.\<close>

definition remove :: "nat list \<Rightarrow> model \<Rightarrow> model" where
  "remove hs m = m\<lparr>constrs := filter (\<lambda>c. c_id c \<notin> set hs) (constrs m)\<rparr>"

definition setObjective :: "linexpr \<Rightarrow> objsense \<Rightarrow> model \<Rightarrow> model" where
  "setObjective e s m = m\<lparr>objective := e, ModelSense := s\<rparr>"

text \<open>
  \<open>model.optimize()\<close> hands the model to the external solver, here a parameter \<open>S\<close>
  that returns a solution or none (an infeasible or unbounded model). The field
  \<open>optimize_calls\<close> is a ghost counter of these calls.
\<close>

definition optimize :: "(model \<Rightarrow> solution option) \<Rightarrow> model \<Rightarrow> model" where
  "optimize S m = m\<lparr>solution := S m, optimize_calls := Suc (optimize_calls m)\<rparr>"

text \<open>\<open>model.getVars()\<close>, \<open>model.ObjVal\<close> and \<open>v.X\<close>; the last two raise when the model holds no solution.\<close>

definition getVars :: "model \<Rightarrow> var list" where
  "getVars m = map v_ref (vars m)"

definition model_ObjVal :: "model \<Rightarrow> error + real" where
  "model_ObjVal m = (case solution m of None \<Rightarrow> Inl AttributeError | Some s \<Rightarrow> Inr (ObjVal s))"

definition var_X :: "model \<Rightarrow> var \<Rightarrow> error + real" where
  "var_X m v = (case solution m of None \<Rightarrow> Inl AttributeError | Some s \<Rightarrow> Inr (X s v))"

subsection \<open>Feasible assignments\<close>

definition is_integral :: "real \<Rightarrow> bool" where
  "is_integral r = (of_int \<lfloor>r\<rfloor> = r)"

definition in_domain :: "var_decl \<Rightarrow> real \<Rightarrow> bool" where
  "in_domain d r =
     (lb d \<le> r \<and> (case ub d of None \<Rightarrow> True | Some u \<Rightarrow> r \<le> u) \<and>
      (case v_type d of CONTINUOUS \<Rightarrow> True | INTEGER \<Rightarrow> is_integral r | BINARY \<Rightarrow> r = 0 \<or> r = 1))"

fun holds :: "(var \<Rightarrow> real) \<Rightarrow> tempconstr \<Rightarrow> bool" where
  "holds a (Cmp l LESS_EQUAL r) = (getValue a l \<le> getValue a r)"
| "holds a (Cmp l GREATER_EQUAL r) = (getValue a l \<ge> getValue a r)"
| "holds a (Cmp l EQUAL r) = (getValue a l = getValue a r)"
| "holds a (Range l lo hi) = (lo \<le> getValue a l \<and> getValue a l \<le> hi)"

definition within_bounds :: "model \<Rightarrow> (var \<Rightarrow> real) \<Rightarrow> bool" where
  "within_bounds m a = list_all (\<lambda>d. in_domain d (a (v_ref d))) (vars m)"

definition feasible :: "model \<Rightarrow> (var \<Rightarrow> real) \<Rightarrow> bool" where
  "feasible m a = (within_bounds m a \<and> list_all (\<lambda>c. holds a (c_body c)) (constrs m))"


section \<open>First notebook: the chip model on hard-coded data\<close>

text \<open>\<open>gp.multidict\<close> on a dictionary of single values: the list of keys and the dictionary.\<close>

definition multidict :: "(string \<times> real) list \<Rightarrow> string list \<times> (string \<times> real) list" where
  "multidict d = (map fst d, d)"

text \<open>
  The notebook binds \<open>chips\<close>, \<open>value\<close>, \<open>ingredients\<close>, \<open>on_hand\<close>, \<open>recipes\<close>, \<open>model\<close> and
  \<open>x\<close>; the second notebook binds the same names to other values, so the values of the
  first carry the suffix \<open>_1\<close>. Each cell is a function of the names it reads.
\<close>

definition chip_values :: "(string \<times> real) list" where
  "chip_values =
     [(''one'', 1), (''five'', 5), (''ten'', 10), (''twenty-five'', 25),
      (''one hundred'', 100), (''five hundred'', 500), (''thousand'', 1000)]"

definition chips_1 :: "string list" where
  "chips_1 = fst (multidict chip_values)"

definition value_1 :: "(string \<times> real) list" where
  "value_1 = snd (multidict chip_values)"

definition model_1 :: model where
  "model_1 = fst (addVars chips_1 INTEGER ''chips'' (Model ''Chip Manufacturing''))"

definition x_1 :: "(string \<times> var) list" where
  "x_1 = snd (addVars chips_1 INTEGER ''chips'' (Model ''Chip Manufacturing''))"

text \<open>The objective, written term by term, with \<open>quicksum\<close>, and with \<open>prod\<close>.\<close>

definition objective_term_by_term :: "(string \<times> var) list \<Rightarrow> (string \<times> real) list \<Rightarrow> error + linexpr" where
  "objective_term_by_term x val =
     plus_r (plus_r (plus_r (plus_r (plus_r (plus_r
       (mul_vk (lookup x ''one'') (lookup val ''one''))
       (mul_vk (lookup x ''five'') (lookup val ''five'')))
       (mul_vk (lookup x ''ten'') (lookup val ''ten'')))
       (mul_vk (lookup x ''twenty-five'') (lookup val ''twenty-five'')))
       (mul_vk (lookup x ''one hundred'') (lookup val ''one hundred'')))
       (mul_vk (lookup x ''five hundred'') (lookup val ''five hundred'')))
       (mul_vk (lookup x ''thousand'') (lookup val ''thousand''))"

definition objective_quicksum ::
  "string list \<Rightarrow> (string \<times> var) list \<Rightarrow> (string \<times> real) list \<Rightarrow> error + linexpr" where
  "objective_quicksum chips x val = quicksum_gen (\<lambda>i. mul_vk (lookup x i) (lookup val i)) chips"

definition objective_prod :: "(string \<times> var) list \<Rightarrow> (string \<times> real) list \<Rightarrow> linexpr" where
  "objective_prod x val = tupledict_prod x val"

text \<open>The two objective cells: each \<open>setObjective\<close> replaces the objective set before.\<close>

definition objective_cells ::
  "string list \<Rightarrow> (string \<times> var) list \<Rightarrow> (string \<times> real) list \<Rightarrow> model \<Rightarrow> error + model" where
  "objective_cells chips x val m =
     and_then (objective_term_by_term x val) (\<lambda>e1.
     and_then (Inr (setObjective e1 MAXIMIZE m)) (\<lambda>m.
     and_then (objective_quicksum chips x val) (\<lambda>e2.
     and_then (Inr (setObjective e2 MAXIMIZE m)) (\<lambda>m.
     Inr (setObjective (objective_prod x val) MAXIMIZE m)))))"

text \<open>The ingredients on hand and the recipes, as the notebook hard-codes them.\<close>

definition ingredient_amounts :: "(string \<times> real) list" where
  "ingredient_amounts = [(''clay'', 5000), (''lead'', 1800), (''silver'', 100), (''gold'', 20)]"

definition ingredients_1 :: "string list" where
  "ingredients_1 = fst (multidict ingredient_amounts)"

definition on_hand_1 :: "(string \<times> real) list" where
  "on_hand_1 = snd (multidict ingredient_amounts)"

definition recipes_1 :: "((string \<times> string) \<times> real) list" where
  "recipes_1 =
     [((''one'', ''clay''), 18.0), ((''one'', ''lead''), 0.0), ((''one'', ''silver''), 0), ((''one'', ''gold''), 0),
      ((''five'', ''clay''), 17.0), ((''five'', ''lead''), 2.0), ((''five'', ''silver''), 0), ((''five'', ''gold''), 0),
      ((''ten'', ''clay''), 16.0), ((''ten'', ''lead''), 3.0), ((''ten'', ''silver''), 0), ((''ten'', ''gold''), 0),
      ((''twenty-five'', ''clay''), 13.0), ((''twenty-five'', ''lead''), 4.5), ((''twenty-five'', ''silver''), 0), ((''twenty-five'', ''gold''), 0),
      ((''one hundred'', ''clay''), 10.0), ((''one hundred'', ''lead''), 6.0), ((''one hundred'', ''silver''), 1), ((''one hundred'', ''gold''), 0),
      ((''five hundred'', ''clay''), 10.0), ((''five hundred'', ''lead''), 8.5), ((''five hundred'', ''silver''), 2), ((''five hundred'', ''gold''), 0),
      ((''thousand'', ''clay''), 10.0), ((''thousand'', ''lead''), 9.5), ((''thousand'', ''silver''), 0), ((''thousand'', ''gold''), 2)]"

text \<open>
  First coding: four \<open>addConstr\<close> calls, each with the usage of one ingredient written
  out chip by chip. The ingredient is the only thing that differs between the four sums.
\<close>

definition usage_term_by_term ::
  "(string \<times> var) list \<Rightarrow> ((string \<times> string) \<times> real) list \<Rightarrow> string \<Rightarrow> error + linexpr" where
  "usage_term_by_term x recipes i =
     plus_r (plus_r (plus_r (plus_r (plus_r (plus_r
       (mul_vk (lookup x ''one'') (lookup recipes (''one'', i)))
       (mul_vk (lookup x ''five'') (lookup recipes (''five'', i))))
       (mul_vk (lookup x ''ten'') (lookup recipes (''ten'', i))))
       (mul_vk (lookup x ''twenty-five'') (lookup recipes (''twenty-five'', i))))
       (mul_vk (lookup x ''one hundred'') (lookup recipes (''one hundred'', i))))
       (mul_vk (lookup x ''five hundred'') (lookup recipes (''five hundred'', i))))
       (mul_vk (lookup x ''thousand'') (lookup recipes (''thousand'', i)))"

definition explicit_constraints ::
  "(string \<times> var) list \<Rightarrow> ((string \<times> string) \<times> real) list \<Rightarrow> (string \<times> real) list \<Rightarrow> model
     \<Rightarrow> error + model" where
  "explicit_constraints x recipes on_hand m =
     and_then (addConstr_stmt (compare (usage_term_by_term x recipes ''clay'') LESS_EQUAL
                 (number (lookup on_hand ''clay''))) ''clay limit'' m) (\<lambda>m.
     and_then (addConstr_stmt (compare (usage_term_by_term x recipes ''lead'') LESS_EQUAL
                 (number (lookup on_hand ''lead''))) ''lead limit'' m) (\<lambda>m.
     and_then (addConstr_stmt (compare (usage_term_by_term x recipes ''gold'') LESS_EQUAL
                 (number (lookup on_hand ''gold''))) ''gold limit'' m) (\<lambda>m.
     addConstr_stmt (compare (usage_term_by_term x recipes ''silver'') LESS_EQUAL
                 (number (lookup on_hand ''silver''))) ''silver limit'' m)))"

text \<open>
  The usage of ingredient \<open>i\<close> as both notebooks write it with \<open>quicksum\<close>:
  \<open>gp.quicksum(x[c] * recipes[c, i] for c in chips)\<close>.
\<close>

definition usage ::
  "string list \<Rightarrow> (string \<times> var) list \<Rightarrow> ((string \<times> string) \<times> real) list \<Rightarrow> string \<Rightarrow> error + linexpr" where
  "usage chips x recipes i = quicksum_gen (\<lambda>c. mul_vk (lookup x c) (lookup recipes (c, i))) chips"

text \<open>Second coding: a loop over the ingredients, one \<open>addConstr\<close> with \<open>quicksum\<close> each.\<close>

definition loop_constraints ::
  "string list \<Rightarrow> string list \<Rightarrow> (string \<times> var) list \<Rightarrow> ((string \<times> string) \<times> real) list
     \<Rightarrow> (string \<times> real) list \<Rightarrow> model \<Rightarrow> error + model" where
  "loop_constraints ingredients chips x recipes on_hand m =
     for_loop (\<lambda>ingredient m.
         addConstr_stmt (compare (usage chips x recipes ingredient) LESS_EQUAL
           (number (lookup on_hand ingredient))) ''ingredients usage'' m)
       ingredients m"

text \<open>Third coding: one \<open>addConstrs\<close> over a generator; its result is bound to \<open>balance_constraints\<close>.\<close>

definition balance_constraints ::
  "string list \<Rightarrow> string list \<Rightarrow> (string \<times> var) list \<Rightarrow> ((string \<times> string) \<times> real) list
     \<Rightarrow> (string \<times> real) list \<Rightarrow> model \<Rightarrow> error + model \<times> (string \<times> nat) list" where
  "balance_constraints ingredients chips x recipes on_hand m =
     addConstrs (\<lambda>i. compare (usage chips x recipes i) LESS_EQUAL (number (lookup on_hand i)))
       ingredients ''ingredients usage'' m"

text \<open>
  The solution cell: \<open>for v in model.getVars(): print(f"{v.VarName}: {v.X}")\<close>. The result
  is the lines printed and the exception that ended the cell, if one did. How Python
  writes a floating-point number is the parameter \<open>fmt\<close>.
\<close>

fun print_vars :: "(real \<Rightarrow> string) \<Rightarrow> model \<Rightarrow> var list \<Rightarrow> string list \<Rightarrow> string list \<times> error option" where
  "print_vars fmt m [] out = (out, None)"
| "print_vars fmt m (v # vs) out =
     (case var_X m v of
        Inl e \<Rightarrow> (out, Some e)
      | Inr r \<Rightarrow> print_vars fmt m vs (out @ [VarName v @ '': '' @ fmt r]))"

definition solution_cell :: "(real \<Rightarrow> string) \<Rightarrow> model \<Rightarrow> string list \<times> error option" where
  "solution_cell fmt m = print_vars fmt m (getVars m) []"

section \<open>Second notebook: changing the model\<close>

subsection \<open>Reading the data\<close>

text \<open>
  The first cell of the second notebook binds five names:

  \<^item> \<open>on_hand = pd.read_csv('data_files/ing_amounts.csv', index_col=['ingredient']).squeeze()\<close>
  \<^item> \<open>chips_data = pd.read_csv('data_files/chips_data.csv', index_col=['chips']).squeeze()\<close>
  \<^item> \<open>recipes = pd.read_csv('data_files/recipes.csv', index_col=['chips', 'ingredients']).squeeze()\<close>
  \<^item> \<open>ingredients = on_hand.index.to_list()\<close>
  \<^item> \<open>chips = chips_data.index.to_list()\<close>

  The CSV files are not part of the sources, and parsing them is the table library's
  business. What the parser makes of the file at a path, before any column becomes the
  index, is therefore a parameter of the cell: the column names in file order, which the
  parser keeps distinct, and the rows in file order, each giving the cell under every
  column name; or the exception the parser raises. A cell is a text or a number.
\<close>

datatype cell = Str string | Num real
















subsection \<open>The tables the later cells index\<close>

text \<open>
  The cells after the first index the five names in one way only: \<open>on_hand[i]\<close> by an
  ingredient, \<open>chips_data.value[c]\<close> (and \<open>demand\<close>, \<open>cost\<close>, \<open>fixed_cost\<close>) by a chip,
  \<open>recipes[c, i]\<close> by a chip and an ingredient, and loops over \<open>ingredients\<close> and
  \<open>chips\<close>. They are functions of these names, taken in the shapes in which the cells
  index them: \<open>on_hand\<close> a series of numbers by ingredient, \<open>chips_data\<close> a frame by chip
  with the four columns the cells read, \<open>recipes\<close> a series of numbers by chip and
  ingredient, all labels texts. A table is the list of its index labels with their rows,
  in order; the labels of an index are meant to be distinct.
\<close>

record chip_row =
  "value" :: real
  demand :: real
  cost :: real
  fixed_cost :: real

text \<open>\<open>t.index.to_list()\<close>, and a column of the chip table as a series (\<open>chips_data.cost\<close>).\<close>

definition index_to_list :: "('k \<times> 'v) list \<Rightarrow> 'k list" where
  "index_to_list t = map fst t"

definition column :: "(chip_row \<Rightarrow> real) \<Rightarrow> (string \<times> chip_row) list \<Rightarrow> (string \<times> real) list" where
  "column f t = map (\<lambda>(k, row). (k, f row)) t"

subsection \<open>The helper\<close>

text \<open>
  Modelled from the spec: \<open>solve_and_print_solution\<close> is imported from
  \<open>solve_and_report.py\<close>, a file the notebook downloads and the sources do not hold. The
  spec calls it a tiny helper that prints solver results, and the solving is the
  external solver's; so its effect on the model is one call of the solver. What it
  prints does not change the model and is left out.
\<close>

definition solve_and_print_solution :: "(model \<Rightarrow> solution option) \<Rightarrow> model \<Rightarrow> model" where
  "solve_and_print_solution S m = optimize S m"

subsection \<open>The cells up to the removal of the demand constraints\<close>

text \<open>
  \<open>ingredient_usage = model.addConstrs((gp.quicksum(x[c] * recipes[c, i] for c in chips)
  <= on_hand[i] for i in ingredients), name="ingredient_usage")\<close>, as every model of the
  second notebook has it.
\<close>

definition ingredient_usage ::
  "string list \<Rightarrow> string list \<Rightarrow> (string \<times> var) list \<Rightarrow> ((string \<times> string) \<times> real) list
     \<Rightarrow> (string \<times> real) list \<Rightarrow> model \<Rightarrow> error + model \<times> (string \<times> nat) list" where
  "ingredient_usage ingredients chips x recipes on_hand m =
     addConstrs (\<lambda>i. compare (usage chips x recipes i) LESS_EQUAL (number (lookup on_hand i)))
       ingredients ''ingredient_usage'' m"

text \<open>The original model: variables, ingredient constraints, total value as objective, solve.\<close>

definition original_model ::
  "(model \<Rightarrow> solution option) \<Rightarrow> string list \<Rightarrow> string list \<Rightarrow> ((string \<times> string) \<times> real) list
     \<Rightarrow> (string \<times> real) list \<Rightarrow> (string \<times> chip_row) list
     \<Rightarrow> error + model \<times> (string \<times> var) list \<times> (string \<times> nat) list" where
  "original_model S chips ingredients recipes on_hand chips_data =
     (case addVars chips INTEGER ''chips'' (Model ''Poker Chips'') of (m, x) \<Rightarrow>
      and_then (ingredient_usage ingredients chips x recipes on_hand m) (\<lambda>(m, iu).
      and_then (quicksum_gen (\<lambda>i. mul_vk (lookup x i) (lookup (column value chips_data) i)) chips) (\<lambda>obj.
      Inr (solve_and_print_solution S (setObjective obj MAXIMIZE m), x, iu))))"

text \<open>\<open>total_chips = gp.quicksum(x[c] for c in chips)\<close>, then the new objective and a solve.\<close>

definition total_chips_expr :: "string list \<Rightarrow> (string \<times> var) list \<Rightarrow> error + linexpr" where
  "total_chips_expr chips x = quicksum_gen (\<lambda>c. variable (lookup x c)) chips"

definition maximize_total_chips :: "(model \<Rightarrow> solution option) \<Rightarrow> linexpr \<Rightarrow> model \<Rightarrow> model" where
  "maximize_total_chips S total_chips m =
     solve_and_print_solution S (setObjective total_chips MAXIMIZE m)"

text \<open>The demand constraints \<open>x[c] >= chips_data.demand[c]\<close>, bound to \<open>meet_demand\<close>.\<close>

definition meet_demand_cell ::
  "(model \<Rightarrow> solution option) \<Rightarrow> string list \<Rightarrow> (string \<times> var) list \<Rightarrow> (string \<times> chip_row) list
     \<Rightarrow> model \<Rightarrow> error + model \<times> (string \<times> nat) list" where
  "meet_demand_cell S chips x chips_data m =
     and_then (addConstrs (\<lambda>c. compare (variable (lookup x c)) GREATER_EQUAL
                 (number (lookup (column demand chips_data) c))) chips ''meet_demand'' m)
       (\<lambda>(m, meet_demand). Inr (solve_and_print_solution S m, meet_demand))"

text \<open>The variable cost and its budget of 80.\<close>

definition v_budget_cell ::
  "(model \<Rightarrow> solution option) \<Rightarrow> string list \<Rightarrow> (string \<times> var) list \<Rightarrow> (string \<times> chip_row) list
     \<Rightarrow> model \<Rightarrow> error + model \<times> linexpr \<times> nat" where
  "v_budget_cell S chips x chips_data m =
     and_then (quicksum_gen (\<lambda>c. mul_kv (lookup (column cost chips_data) c) (lookup x c)) chips)
       (\<lambda>vCost_all_chips.
          case addConstr (Cmp vCost_all_chips LESS_EQUAL (of_const 80)) ''v_budget'' m of
            (m, vBudget) \<Rightarrow> Inr (solve_and_print_solution S m, vCost_all_chips, vBudget))"

text \<open>
  The binary variables \<open>y\<close> and the big-M constraints \<open>x[c] <= M * y[c]\<close> with \<open>M = 500\<close>.
  The same three statements stand in the cell before the fixed costs and in the cell
  before the logical constraints.
\<close>

definition M :: real where
  "M = 500"

definition link_cell ::
  "string list \<Rightarrow> (string \<times> var) list \<Rightarrow> model \<Rightarrow> error + model \<times> (string \<times> var) list \<times> (string \<times> nat) list" where
  "link_cell chips x m =
     (case addVars chips BINARY ''make'' m of (m, y) \<Rightarrow>
      and_then (addConstrs (\<lambda>c. compare (variable (lookup x c)) LESS_EQUAL
                  (mul_kv (Inr M) (lookup y c))) chips ''link_x_y'' m)
        (\<lambda>(m, link_x_y). Inr (m, y, link_x_y)))"

text \<open>The fixed cost, the total cost and its budget of 280.\<close>

definition t_budget_cell ::
  "(model \<Rightarrow> solution option) \<Rightarrow> string list \<Rightarrow> (string \<times> var) list \<Rightarrow> (string \<times> chip_row) list
     \<Rightarrow> linexpr \<Rightarrow> model \<Rightarrow> error + model \<times> nat" where
  "t_budget_cell S chips y chips_data vCost_all_chips m =
     and_then (quicksum_gen (\<lambda>c. mul_kv (lookup (column fixed_cost chips_data) c) (lookup y c)) chips)
       (\<lambda>fCost_all_chips.
          let tCost_all_chips = expr_add vCost_all_chips fCost_all_chips in
          case addConstr (Cmp tCost_all_chips LESS_EQUAL (of_const 280)) ''t_budget'' m of
            (m, tBudget) \<Rightarrow> Inr (solve_and_print_solution S m, tBudget))"

text \<open>\<open>model.remove(meet_demand)\<close>: the handles are the values of the tupledict.\<close>

definition remove_meet_demand :: "(string \<times> nat) list \<Rightarrow> model \<Rightarrow> model" where
  "remove_meet_demand meet_demand m = remove (map snd meet_demand) m"

text \<open>
  The cells from the original model to the removal, in the order of the notebook. The
  result is the model just before the removal, the handles bound to \<open>meet_demand\<close>,
  and the model after it.
\<close>

definition cells_to_removal ::
  "(model \<Rightarrow> solution option) \<Rightarrow> string list \<Rightarrow> string list \<Rightarrow> ((string \<times> string) \<times> real) list \<Rightarrow>
     (string \<times> real) list \<Rightarrow> (string \<times> chip_row) list \<Rightarrow>
     error + model \<times> (string \<times> nat) list \<times> model" where
  "cells_to_removal S chips ingredients recipes on_hand chips_data =
     and_then (original_model S chips ingredients recipes on_hand chips_data) (\<lambda>(m, x, iu).
     and_then (total_chips_expr chips x) (\<lambda>total_chips.
     and_then (Inr (maximize_total_chips S total_chips m)) (\<lambda>m.
     and_then (meet_demand_cell S chips x chips_data m) (\<lambda>(m, meet_demand).
     and_then (v_budget_cell S chips x chips_data m) (\<lambda>(m, vCost_all_chips, vBudget).
     and_then (link_cell chips x m) (\<lambda>(m, y, link_x_y).
     and_then (t_budget_cell S chips y chips_data vCost_all_chips m) (\<lambda>(m, tBudget).
     Inr (m, meet_demand, remove_meet_demand meet_demand m))))))))"

subsection \<open>Decision expressions for high and low chips\<close>

definition high_chips :: "string list" where
  "high_chips = [''one hundred'', ''five hundred'', ''thousand'']"

definition low_chips :: "string list \<Rightarrow> string list" where
  "low_chips chips = filter (\<lambda>c. c \<notin> set high_chips) chips"

text \<open>\<open>gp.quicksum(chips_data.value[c] * x[c] for c in cs)\<close> for a list of chips \<open>cs\<close>.\<close>

definition value_of_chips ::
  "(string \<times> chip_row) list \<Rightarrow> (string \<times> var) list \<Rightarrow> string list \<Rightarrow> error + linexpr" where
  "value_of_chips chips_data x cs =
     quicksum_gen (\<lambda>c. mul_kv (lookup (column value chips_data) c) (lookup x c)) cs"

text \<open>The cell binding \<open>val_total_chips\<close>, \<open>val_high_chips\<close> and \<open>val_low_chips\<close>.\<close>

definition value_expressions ::
  "string list \<Rightarrow> (string \<times> chip_row) list \<Rightarrow> (string \<times> var) list \<Rightarrow> error + linexpr \<times> linexpr \<times> linexpr" where
  "value_expressions chips chips_data x =
     and_then (value_of_chips chips_data x chips) (\<lambda>val_total_chips.
     and_then (value_of_chips chips_data x high_chips) (\<lambda>val_high_chips.
     and_then (value_of_chips chips_data x (low_chips chips)) (\<lambda>val_low_chips.
     Inr (val_total_chips, val_high_chips, val_low_chips))))"

subsection \<open>Logical constraints\<close>

text \<open>The five \<open>addConstr\<close> calls of the cell, the last with the range \<open>== [2,3]\<close>.\<close>

definition logical_constraints :: "(string \<times> var) list \<Rightarrow> string list \<Rightarrow> model \<Rightarrow> error + model" where
  "logical_constraints y low m =
     and_then (addConstr_stmt (compare (plus_r (variable (lookup y ''five hundred''))
                 (variable (lookup y ''thousand''))) LESS_EQUAL (Inr (of_const 1)))
                 ''at_most_one_high_value'' m) (\<lambda>m.
     and_then (addConstr_stmt (compare (plus_r (variable (lookup y ''five hundred''))
                 (variable (lookup y ''thousand''))) EQUAL (Inr (of_const 1)))
                 ''exactly_one_high_value'' m) (\<lambda>m.
     and_then (addConstr_stmt (compare (quicksum_gen (\<lambda>l. variable (lookup y l)) low)
                 GREATER_EQUAL (Inr (of_const 2))) ''min_low_value_types'' m) (\<lambda>m.
     and_then (addConstr_stmt (compare (quicksum_gen (\<lambda>l. variable (lookup y l)) low)
                 LESS_EQUAL (Inr (of_const 3))) ''max_low_value_types'' m) (\<lambda>m.
     addConstr_stmt (in_range (quicksum_gen (\<lambda>l. variable (lookup y l)) low) 2 3)
                 ''max_low_value_types'' m))))"

subsection \<open>Hierarchical optimization by hand\<close>

text \<open>
  The first cell builds a new model with both families of variables, the ingredient,
  30 percent, big-M and budget constraints, maximizes the total number of chips and
  solves. Its result is the solved model with \<open>total_chips\<close> and \<open>val_total_chips\<close>.
\<close>

definition first_stage ::
  "(model \<Rightarrow> solution option) \<Rightarrow> string list \<Rightarrow> string list \<Rightarrow> ((string \<times> string) \<times> real) list
     \<Rightarrow> (string \<times> real) list \<Rightarrow> (string \<times> chip_row) list \<Rightarrow> error + model \<times> linexpr \<times> linexpr" where
  "first_stage S chips ingredients recipes on_hand chips_data =
     (let model = Model ''Poker Chips'' in
      case addVars chips INTEGER ''chips'' model of (model, x) \<Rightarrow>
      case addVars chips BINARY ''make'' model of (model, y) \<Rightarrow>
      let total_chips = tupledict_sum x in
      and_then (value_expressions chips chips_data x) (\<lambda>(val_total_chips, val_high_chips, val_low_chips).
      and_then (quicksum_gen (\<lambda>c. mul_kv (lookup (column cost chips_data) c) (lookup x c)) chips) (\<lambda>vCost_all_chips.
      and_then (quicksum_gen (\<lambda>c. mul_kv (lookup (column fixed_cost chips_data) c) (lookup y c)) chips) (\<lambda>fCost_all_chips.
      let tCost_all_chips = expr_add vCost_all_chips fCost_all_chips in
      and_then (ingredient_usage ingredients chips x recipes on_hand model) (\<lambda>(model, iu).
      and_then (addConstrs (\<lambda>c. compare (variable (lookup x c)) LESS_EQUAL
                  (Inr (expr_scale 0.3 total_chips))) chips ''percent30'' model) (\<lambda>(model, percent30).
      and_then (addConstrs (\<lambda>c. compare (variable (lookup x c)) LESS_EQUAL
                  (mul_kv (Inr M) (lookup y c))) chips ''link_x_y'' model) (\<lambda>(model, link_x_y).
      case addConstr (Cmp tCost_all_chips LESS_EQUAL (of_const 220)) ''t_budget'' model of
        (model, tBudget) \<Rightarrow>
      Inr (solve_and_print_solution S (setObjective total_chips MAXIMIZE model),
           total_chips, val_total_chips))))))))"

text \<open>
  The second cell reads the optimal value \<open>z\<close>, adds \<open>total_chips >= 0.9*z\<close> (the
  constraint is given no name), sets the total value as objective and solves again.
\<close>

definition second_stage ::
  "(model \<Rightarrow> solution option) \<Rightarrow> linexpr \<Rightarrow> linexpr \<Rightarrow> model \<Rightarrow> error + model \<times> real \<times> nat" where
  "second_stage S total_chips val_total_chips model =
     and_then (model_ObjVal model) (\<lambda>z.
     case addConstr (Cmp total_chips GREATER_EQUAL (of_const (0.9 * z))) [] model of
       (model, multi_obj) \<Rightarrow>
     Inr (solve_and_print_solution S (setObjective val_total_chips MAXIMIZE model), z, multi_obj))"

definition diy_hierarchical ::
  "(model \<Rightarrow> solution option) \<Rightarrow> string list \<Rightarrow> string list \<Rightarrow> ((string \<times> string) \<times> real) list \<Rightarrow>
     (string \<times> real) list \<Rightarrow> (string \<times> chip_row) list \<Rightarrow> error + model \<times> model \<times> real" where
  "diy_hierarchical S chips ingredients recipes on_hand chips_data =
     and_then (first_stage S chips ingredients recipes on_hand chips_data)
       (\<lambda>(model1, total_chips, val_total_chips).
     and_then (second_stage S total_chips val_total_chips model1) (\<lambda>(model2, z, multi_obj).
     Inr (model1, model2, z)))"

section \<open>Reference expressions and example data\<close>

text \<open>
  The expression \<open>\<Sum>c. v c * x c\<close> over the seven chip variables, written out: what the
  three formulations of the objective are compared with.
\<close>

definition total_value_expr :: linexpr where
  "total_value_expr =
     LinExpr [(1, Var ''chips'' ''one''), (5, Var ''chips'' ''five''), (10, Var ''chips'' ''ten''),
              (25, Var ''chips'' ''twenty-five''), (100, Var ''chips'' ''one hundred''),
              (500, Var ''chips'' ''five hundred''), (1000, Var ''chips'' ''thousand'')] 0"

text \<open>
  The family \<open>\<Sum>c. r c i * x c \<le> q i\<close> for the four ingredients, written out with the
  numbers of the first notebook: what the three codings are compared with.
\<close>

definition ingredient_limits :: "(var \<Rightarrow> real) \<Rightarrow> bool" where
  "ingredient_limits a =
     (18 * a (Var ''chips'' ''one'') + 17 * a (Var ''chips'' ''five'') + 16 * a (Var ''chips'' ''ten'')
        + 13 * a (Var ''chips'' ''twenty-five'') + 10 * a (Var ''chips'' ''one hundred'')
        + 10 * a (Var ''chips'' ''five hundred'') + 10 * a (Var ''chips'' ''thousand'') \<le> 5000 \<and>
      2 * a (Var ''chips'' ''five'') + 3 * a (Var ''chips'' ''ten'')
        + 4.5 * a (Var ''chips'' ''twenty-five'') + 6 * a (Var ''chips'' ''one hundred'')
        + 8.5 * a (Var ''chips'' ''five hundred'') + 9.5 * a (Var ''chips'' ''thousand'') \<le> 1800 \<and>
      a (Var ''chips'' ''one hundred'') + 2 * a (Var ''chips'' ''five hundred'') \<le> 100 \<and>
      2 * a (Var ''chips'' ''thousand'') \<le> 20)"

text \<open>An assignment given by a table of values; a variable not listed is 0.\<close>

definition assignment_of :: "(var \<times> real) list \<Rightarrow> var \<Rightarrow> real" where
  "assignment_of t v = (case map_of t v of None \<Rightarrow> 0 | Some r \<Rightarrow> r)"

text \<open>The production plan the second notebook records as the solver's answer for the original model.\<close>

definition recorded_plan :: "var \<Rightarrow> real" where
  "recorded_plan =
     assignment_of [(Var ''chips'' ''one'', 38), (Var ''chips'' ''five'', 1), (Var ''chips'' ''ten'', 0),
       (Var ''chips'' ''twenty-five'', 284), (Var ''chips'' ''one hundred'', 0),
       (Var ''chips'' ''five hundred'', 50), (Var ''chips'' ''thousand'', 10)]"

text \<open>
  What \<open>addConstrs\<close> appends, given the constraints its generator builds: one constraint
  per key, numbered from the model's next handle and named \<open>n[k]\<close>; and the tupledict of
  handles it returns.
\<close>

fun named_constrs :: "nat \<Rightarrow> string \<Rightarrow> string list \<Rightarrow> tempconstr list \<Rightarrow> constr list" where
  "named_constrs j n (k # ks) (c # cs) =
     \<lparr>c_id = j, ConstrName = n @ ''['' @ k @ '']'', c_body = c\<rparr> # named_constrs (Suc j) n ks cs"
| "named_constrs j n ks cs = []"

fun new_handles :: "(string \<times> nat) list \<Rightarrow> nat \<Rightarrow> string list \<Rightarrow> (string \<times> nat) list" where
  "new_handles acc j [] = acc"
| "new_handles acc j (k # ks) = new_handles (dict_set acc k j) (Suc j) ks"

text \<open>The demand constraint \<open>x c \<ge> d c\<close> of a row of the chip table.\<close>

definition demand_constraint :: "string \<times> chip_row \<Rightarrow> tempconstr" where
  "demand_constraint = (\<lambda>(c, row).
     Cmp (LinExpr [(1, Var ''chips'' c)] 0) GREATER_EQUAL (LinExpr [] (demand row)))"

text \<open>The big-M constraint \<open>x c \<le> 500 * y c\<close> of chip \<open>c\<close>.\<close>

definition big_M_constraint :: "string \<Rightarrow> tempconstr" where
  "big_M_constraint c =
     Cmp (LinExpr [(1, Var ''chips'' c)] 0) LESS_EQUAL (LinExpr [(500, Var ''make'' c)] 0)"

text \<open>
  Example tables for trying the cells of the second notebook on concrete data: the
  amounts and recipes of the first notebook, and a chip table with the values of the
  first notebook and illustrative demands and costs.
\<close>

definition example_chips_data :: "(string \<times> chip_row) list" where
  "example_chips_data =
     [(''one'', \<lparr>value = 1, demand = 20, cost = 0.1, fixed_cost = 30\<rparr>),
      (''five'', \<lparr>value = 5, demand = 20, cost = 0.1, fixed_cost = 30\<rparr>),
      (''ten'', \<lparr>value = 10, demand = 20, cost = 0.1, fixed_cost = 30\<rparr>),
      (''twenty-five'', \<lparr>value = 25, demand = 20, cost = 0.1, fixed_cost = 30\<rparr>),
      (''one hundred'', \<lparr>value = 100, demand = 10, cost = 0.1, fixed_cost = 30\<rparr>),
      (''five hundred'', \<lparr>value = 500, demand = 5, cost = 0.1, fixed_cost = 30\<rparr>),
      (''thousand'', \<lparr>value = 1000, demand = 5, cost = 0.1, fixed_cost = 30\<rparr>)]"









text \<open>
  How Python writes the numbers of the recorded plan, and a solver that answers with the
  recorded plan and its value.
\<close>

definition float_str :: "real \<Rightarrow> string" where
  "float_str r =
     (case map_of [(0, ''0.0''), (1, ''1.0''), (10, ''10.0''), (38, ''38.0''), (50, ''50.0''),
                   (284, ''284.0'')] r of
        None \<Rightarrow> ''?'' | Some s \<Rightarrow> s)"

definition recorded_solver :: "model \<Rightarrow> solution option" where
  "recorded_solver m = Some \<lparr>ObjVal = 42143, X = recorded_plan\<rparr>"

text \<open>The sum \<open>y['five hundred'] + y['thousand']\<close> of the two logical constraints on the high values.\<close>

definition high_value_sum :: linexpr where
  "high_value_sum = LinExpr [(1, Var ''make'' ''five hundred''), (1, Var ''make'' ''thousand'')] 0"

text \<open>
  The plan the second notebook records as the answer of the second solve of the
  hierarchical cells, with its indicators.
\<close>

definition second_stage_plan :: "var \<Rightarrow> real" where
  "second_stage_plan =
     assignment_of [(Var ''chips'' ''five'', 89), (Var ''chips'' ''ten'', 103),
       (Var ''chips'' ''twenty-five'', 103), (Var ''chips'' ''five hundred'', 50),
       (Var ''make'' ''five'', 1), (Var ''make'' ''ten'', 1), (Var ''make'' ''twenty-five'', 1),
       (Var ''make'' ''five hundred'', 1)]"

text \<open>
  The plan the notebook records for the first solve of the hierarchical cells, and a
  solver that answers the first call with that plan and its value 367 and any later
  call with the plan and value recorded for the second solve.
\<close>

definition first_stage_plan :: "var \<Rightarrow> real" where
  "first_stage_plan =
     assignment_of [(Var ''chips'' ''five'', 47), (Var ''chips'' ''ten'', 110),
       (Var ''chips'' ''twenty-five'', 110), (Var ''chips'' ''one hundred'', 100),
       (Var ''make'' ''one'', 1), (Var ''make'' ''five'', 1), (Var ''make'' ''ten'', 1),
       (Var ''make'' ''twenty-five'', 1), (Var ''make'' ''one hundred'', 1)]"

definition recorded_stage_solver :: "model \<Rightarrow> solution option" where
  "recorded_stage_solver m =
     (if optimize_calls m = 0 then Some \<lparr>ObjVal = 367, X = first_stage_plan\<rparr>
      else Some \<lparr>ObjVal = 29050, X = second_stage_plan\<rparr>)"

section \<open>Facts about the interface\<close>


lemma and_then_Inr: "(and_then r f = Inr b) = (\<exists>a. r = Inr a \<and> f a = Inr b)"
  by (cases r) (simp_all add: and_then_def)

lemma for_each_Inr:
  "(for_each f ks = Inr bs) = list_all2 (\<lambda>k b. f k = Inr b) ks bs"
proof (induction ks arbitrary: bs)
  case Nil
  show ?case by auto
next
  case (Cons k ks)
  show ?case
    by (auto simp: list_all2_Cons1 Cons.IH [symmetric] split: sum.splits)
qed

lemma getValue_add: "getValue a (expr_add e1 e2) = getValue a e1 + getValue a e2"
  by (cases e1; cases e2) simp

lemma getValue_scale: "getValue a (expr_scale c e) = c * getValue a e"
proof (cases e)
  case (LinExpr ts k)
  have "sum_list (map (\<lambda>(b, v). b * a v) (map (\<lambda>(b, v). (c * b, v)) ts))
        = c * sum_list (map (\<lambda>(b, v). b * a v) ts)"
    by (induction ts) (auto simp: algebra_simps)
  then show ?thesis using LinExpr by (simp add: algebra_simps)
qed

lemma getValue_foldl:
  "getValue a (foldl expr_add e es) = getValue a e + sum_list (map (getValue a) es)"
  by (induction es arbitrary: e) (simp_all add: getValue_add)

lemma getValue_quicksum: "getValue a (quicksum es) = sum_list (map (getValue a) es)"
  by (simp add: quicksum_def getValue_foldl)

lemma coeff_add: "coeff (expr_add e1 e2) v = coeff e1 v + coeff e2 v"
  by (cases e1; cases e2) simp

lemma coeff_foldl: "coeff (foldl expr_add e es) v = coeff e v + sum_list (map (\<lambda>e. coeff e v) es)"
  by (induction es arbitrary: e) (simp_all add: coeff_add)

lemma coeff_quicksum: "coeff (quicksum es) v = sum_list (map (\<lambda>e. coeff e v) es)"
  by (simp add: quicksum_def coeff_foldl)

lemma map_of_dict_set: "map_of (dict_set d k v) k' = (if k' = k then Some v else map_of d k')"
  by (induction d) auto

lemma map_of_foldl_dict_set:
  "map_of (foldl (\<lambda>d k. dict_set d k (f k)) d ks) k =
     (if k \<in> set ks then Some (f k) else map_of d k)"
  by (induction ks arbitrary: d) (auto simp: map_of_dict_set)

lemma lookup_addVars:
  "lookup (snd (addVars ks t n m)) k = (if k \<in> set ks then Inr (Var n k) else Inl KeyError)"
  by (simp add: lookup_def addVars_def map_of_foldl_dict_set)

lemma dict_set_fresh: "k \<notin> fst ` set d \<Longrightarrow> dict_set d k v = d @ [(k, v)]"
  by (induction d) auto

lemma foldl_dict_set_distinct:
  "distinct ks \<Longrightarrow> set ks \<inter> fst ` set d = {} \<Longrightarrow>
   foldl (\<lambda>d k. dict_set d k (f k)) d ks = d @ map (\<lambda>k. (k, f k)) ks"
proof (induction ks arbitrary: d)
  case Nil
  show ?case by simp
next
  case (Cons k ks)
  have "dict_set d k (f k) = d @ [(k, f k)]"
    using Cons.prems by (intro dict_set_fresh) auto
  moreover have "set ks \<inter> fst ` set (d @ [(k, f k)]) = {}"
    using Cons.prems by auto
  ultimately show ?case
    using Cons.IH [of "d @ [(k, f k)]"] Cons.prems by simp
qed

lemma tupledict_addVars:
  "distinct ks \<Longrightarrow> snd (addVars ks t n m) = map (\<lambda>k. (k, Var n k)) ks"
  using foldl_dict_set_distinct [of ks "[]" "Var n"] by (simp add: addVars_def)


lemma for_each_map: "(\<And>k. k \<in> set ks \<Longrightarrow> f k = Inr (g k)) \<Longrightarrow> for_each f ks = Inr (map g ks)"
  by (induction ks) simp_all

lemma for_each_length: "for_each f ks = Inr bs \<Longrightarrow> length bs = length ks"
  by (simp add: for_each_Inr list_all2_lengthD)

lemma addConstrs_loop_eq:
  "addConstrs_loop g n ks m acc =
     (case for_each g ks of
        Inl e \<Rightarrow> Inl e
      | Inr cs \<Rightarrow>
          Inr (m\<lparr>constrs := constrs m @ named_constrs (next_id m) n ks cs,
                  next_id := next_id m + length ks\<rparr>,
               new_handles acc (next_id m) ks))"
proof (induction ks arbitrary: m acc)
  case Nil
  show ?case by simp
next
  case (Cons k ks)
  show ?case
    by (simp add: Cons addConstr_def split: sum.splits)
qed

lemma addConstrs_eq:
  "addConstrs g ks n m =
     (case for_each g ks of
        Inl e \<Rightarrow> Inl e
      | Inr cs \<Rightarrow>
          Inr (m\<lparr>constrs := constrs m @ named_constrs (next_id m) n ks cs,
                  next_id := next_id m + length ks\<rparr>,
               new_handles [] (next_id m) ks))"
  by (simp add: addConstrs_def addConstrs_loop_eq)

lemma named_constrs_body:
  "length cs = length ks \<Longrightarrow> map c_body (named_constrs j n ks cs) = cs"
  by (induction j n ks cs rule: named_constrs.induct) simp_all

lemma named_constrs_name:
  "length cs = length ks \<Longrightarrow>
   map ConstrName (named_constrs j n ks cs) = map (\<lambda>k. n @ ''['' @ k @ '']'') ks"
  by (induction j n ks cs rule: named_constrs.induct) simp_all

lemma named_constrs_id:
  "length cs = length ks \<Longrightarrow> map c_id (named_constrs j n ks cs) = [j ..< j + length ks]"
  by (induction j n ks cs rule: named_constrs.induct) (simp_all add: upt_rec)

lemma sum_list_member_le:
  fixes f :: "'a \<Rightarrow> real"
  assumes "k \<in> set ks" and "\<And>j. j \<in> set ks \<Longrightarrow> 0 \<le> f j"
  shows "f k \<le> sum_list (map f ks)"
proof -
  have "sum_list (map f ks) = f k + sum_list (map f (remove1 k ks))"
    using assms(1) by (rule sum_list_map_remove1)
  moreover have "0 \<le> sum_list (map f (remove1 k ks))"
    by (rule sum_list_nonneg) (use assms(2) in \<open>auto dest: notin_set_remove1\<close>)
  ultimately show ?thesis by simp
qed

lemma for_each_Inr_map:
  assumes "for_each f ks = Inr bs"
  shows "bs = map (\<lambda>k. projr (f k)) ks" and "\<And>k. k \<in> set ks \<Longrightarrow> f k = Inr (projr (f k))"
proof -
  have "list_all2 (\<lambda>k b. f k = Inr b) ks bs"
    using assms by (simp add: for_each_Inr)
  then show "bs = map (\<lambda>k. projr (f k)) ks"
    by (induction rule: list_all2_induct) simp_all
  then show "\<And>k. k \<in> set ks \<Longrightarrow> f k = Inr (projr (f k))"
    using \<open>list_all2 (\<lambda>k b. f k = Inr b) ks bs\<close>
    by (induction ks arbitrary: bs) (auto simp: list_all2_Cons1)
qed

lemma quicksum_gen_Inr:
  assumes "quicksum_gen f ks = Inr e"
  shows "e = quicksum (map (\<lambda>k. projr (f k)) ks)" and "\<And>k. k \<in> set ks \<Longrightarrow> f k = Inr (projr (f k))"
proof -
  obtain bs where bs: "for_each f ks = Inr bs" and e: "e = quicksum bs"
    using assms by (auto simp: quicksum_gen_def and_then_Inr)
  show "e = quicksum (map (\<lambda>k. projr (f k)) ks)"
    using for_each_Inr_map(1) [OF bs] e by simp
  show "\<And>k. k \<in> set ks \<Longrightarrow> f k = Inr (projr (f k))"
    using for_each_Inr_map(2) [OF bs] by simp
qed

lemma mul_kv_Inr: "(mul_kv k v = Inr e) = (\<exists>r w. k = Inr r \<and> v = Inr w \<and> e = LinExpr [(r, w)] 0)"
  by (auto simp: mul_kv_def and_then_Inr)

lemma mul_vk_Inr: "(mul_vk v k = Inr e) = (\<exists>r w. k = Inr r \<and> v = Inr w \<and> e = LinExpr [(r, w)] 0)"
  by (auto simp: mul_vk_def and_then_Inr)

lemma lookup_addVars_Inr:
  "(lookup (snd (addVars ks t n m)) k = Inr w) = (k \<in> set ks \<and> w = Var n k)"
  by (auto simp: lookup_addVars)

lemma sum_list_filter_split:
  fixes f :: "'a \<Rightarrow> real"
  shows "sum_list (map f (filter P xs)) + sum_list (map f (filter (\<lambda>x. \<not> P x) xs)) = sum_list (map f xs)"
  by (induction xs) simp_all

lemma sum_list_filter_mem:
  fixes f :: "'a \<Rightarrow> real"
  assumes "distinct xs" and "distinct hs" and "set hs \<subseteq> set xs"
  shows "sum_list (map f (filter (\<lambda>x. x \<in> set hs) xs)) = sum_list (map f hs)"
proof -
  have "set (filter (\<lambda>x. x \<in> set hs) xs) = set hs"
    using assms(3) by auto
  moreover have "distinct (filter (\<lambda>x. x \<in> set hs) xs)"
    using assms(1) by simp
  ultimately show ?thesis
    using assms(2) by (simp add: sum_list_distinct_conv_sum_set)
qed

lemma addConstr_stmt_Inr:
  "(addConstr_stmt c n m = Inr m') =
     (\<exists>tc. c = Inr tc \<and>
        m' = m\<lparr>constrs := constrs m @ [\<lparr>c_id = next_id m, ConstrName = n, c_body = tc\<rparr>],
               next_id := Suc (next_id m)\<rparr>)"
  by (auto simp: addConstr_stmt_def and_then_Inr addConstr_def)

lemma compare_Inr:
  "(compare l s r = Inr tc) = (\<exists>el er. l = Inr el \<and> r = Inr er \<and> tc = Cmp el s er)"
  by (auto simp: compare_def and_then_Inr)

lemma named_constrs_set:
  "length cs = length ks \<Longrightarrow> c_body ` set (named_constrs j n ks cs) = set cs"
  using named_constrs_body [of cs ks j n] by (metis set_map)

lemma addConstrs_Inr:
  assumes "addConstrs g ks n m = Inr (m', h)"
  shows "\<exists>cs. for_each g ks = Inr cs \<and>
           m' = m\<lparr>constrs := constrs m @ named_constrs (next_id m) n ks cs,
                  next_id := next_id m + length ks\<rparr> \<and>
           h = new_handles [] (next_id m) ks"
  using assms by (auto simp: addConstrs_eq split: sum.splits)

lemma new_handles_distinct:
  "distinct ks \<Longrightarrow> set ks \<inter> fst ` set acc = {} \<Longrightarrow>
   new_handles acc j ks = acc @ zip ks [j ..< j + length ks]"
proof (induction ks arbitrary: acc j)
  case Nil
  show ?case by simp
next
  case (Cons k ks)
  have "dict_set acc k j = acc @ [(k, j)]"
    using Cons.prems by (intro dict_set_fresh) auto
  moreover have "set ks \<inter> fst ` set (acc @ [(k, j)]) = {}"
    using Cons.prems by auto
  ultimately show ?case
    using Cons.IH [of "acc @ [(k, j)]" "Suc j"] Cons.prems by (simp add: upt_rec)
qed

lemma handles_of_new:
  "distinct ks \<Longrightarrow> map snd (new_handles [] j ks) = [j ..< j + length ks]"
  by (simp add: new_handles_distinct)

lemma lookup_column:
  assumes "distinct (map fst t)" and "(k, row) \<in> set t"
  shows "lookup (column f t) k = Inr (f row)"
proof -
  have "map_of t k = Some row"
    using assms by (rule map_of_is_SomeI)
  moreover have "map_of (column f t) k = map_option f (map_of t k)"
    unfolding column_def by (induction t) auto
  ultimately show ?thesis
    by (simp add: lookup_def)
qed

lemma for_each_index:
  assumes "\<And>p. p \<in> set t \<Longrightarrow> g (fst p) = Inr (h p)"
  shows "for_each g (map fst t) = Inr (map h t)"
  using assms by (induction t) simp_all

lemma optimize_frame [simp]:
  "vars (optimize S m) = vars m" "constrs (optimize S m) = constrs m"
  "next_id (optimize S m) = next_id m" "objective (optimize S m) = objective m"
  "ModelSense (optimize S m) = ModelSense m"
  by (simp_all add: optimize_def)

lemma setObjective_frame [simp]:
  "vars (setObjective e s m) = vars m" "constrs (setObjective e s m) = constrs m"
  "next_id (setObjective e s m) = next_id m"
  by (simp_all add: setObjective_def)

lemma addConstr_frame [simp]:
  "vars (fst (addConstr c n m)) = vars m"
  "constrs (fst (addConstr c n m)) = constrs m @ [\<lparr>c_id = next_id m, ConstrName = n, c_body = c\<rparr>]"
  "next_id (fst (addConstr c n m)) = Suc (next_id m)"
  by (simp_all add: addConstr_def)

lemma filter_ids_keep: "(\<And>c. c \<in> set cs \<Longrightarrow> c_id c \<notin> H) \<Longrightarrow> filter (\<lambda>c. c_id c \<notin> H) cs = cs"
  by (induction cs) simp_all

lemma filter_ids_drop: "(\<And>c. c \<in> set cs \<Longrightarrow> c_id c \<in> H) \<Longrightarrow> filter (\<lambda>c. c_id c \<notin> H) cs = []"
  by (induction cs) simp_all

lemma named_constrs_ids_in:
  assumes "length cs = length ks" and "c \<in> set (named_constrs j n ks cs)"
  shows "j \<le> c_id c \<and> c_id c < j + length ks"
proof -
  have "c_id c \<in> set (map c_id (named_constrs j n ks cs))"
    using assms(2) by simp
  then show ?thesis
    by (simp add: named_constrs_id [OF assms(1)])
qed

lemma dict_set_keys: "fst ` set (dict_set d k v) = insert k (fst ` set d)"
  by (induction d k v rule: dict_set.induct) (simp_all add: insert_commute)

lemma dict_set_distinct: "distinct (map fst d) \<Longrightarrow> distinct (map fst (dict_set d k v))"
  by (induction d) (auto simp: dict_set_keys)

lemma dict_set_entries:
  "(\<And>p. p \<in> set d \<Longrightarrow> snd p = f (fst p)) \<Longrightarrow> p \<in> set (dict_set d k (f k)) \<Longrightarrow> snd p = f (fst p)"
  by (induction d) (auto split: if_splits)

lemma foldl_dict_set_props:
  assumes "distinct (map fst d)" and "\<And>p. p \<in> set d \<Longrightarrow> snd p = f (fst p)"
  shows "distinct (map fst (foldl (\<lambda>d k. dict_set d k (f k)) d ks)) \<and>
         fst ` set (foldl (\<lambda>d k. dict_set d k (f k)) d ks) = fst ` set d \<union> set ks \<and>
         (\<forall>p \<in> set (foldl (\<lambda>d k. dict_set d k (f k)) d ks). snd p = f (fst p))"
  using assms
proof (induction ks arbitrary: d)
  case Nil
  then show ?case by simp
next
  case (Cons k ks)
  have "distinct (map fst (dict_set d k (f k)))"
    using Cons.prems(1) by (rule dict_set_distinct)
  moreover have "\<And>p. p \<in> set (dict_set d k (f k)) \<Longrightarrow> snd p = f (fst p)"
    using Cons.prems(2) by (rule dict_set_entries)
  ultimately show ?case
    using Cons.IH [of "dict_set d k (f k)"] by (simp add: dict_set_keys)
qed

lemma getValue_tupledict_sum:
  "getValue a (tupledict_sum (snd (addVars ks t n m))) = (\<Sum>k\<in>set ks. a (Var n k))"
proof -
  let ?x = "foldl (\<lambda>d k. dict_set d k (Var n k)) [] ks"
  have p: "distinct (map fst ?x)" "fst ` set ?x = set ks" "\<forall>p \<in> set ?x. snd p = Var n (fst p)"
    using foldl_dict_set_props [of "[]" "Var n" ks] by simp_all
  have "map (getValue a) (map (\<lambda>(k, v). of_var v) ?x) = map (\<lambda>k. a (Var n k)) (map fst ?x)"
    using p(3) by (auto simp: of_var_def)
  then have "getValue a (tupledict_sum ?x) = sum_list (map (\<lambda>k. a (Var n k)) (map fst ?x))"
    unfolding tupledict_sum_def getValue_quicksum by (rule arg_cong)
  also have "\<dots> = (\<Sum>k\<in>set (map fst ?x). a (Var n k))"
    using p(1) by (rule sum_list_distinct_conv_sum_set)
  also have "\<dots> = (\<Sum>k\<in>set ks. a (Var n k))"
    using p(2) by simp
  finally show ?thesis
    by (simp add: addVars_def)
qed

lemma addConstrs_calls:
  "addConstrs g ks n m = Inr (m', h) \<Longrightarrow> optimize_calls m' = optimize_calls m"
  using addConstrs_Inr [of g ks n m m' h] by auto

text \<open>The definitions that evaluating a cell on concrete data unfolds.\<close>

lemmas first_notebook_data =
  x_1_def chips_1_def multidict_def chip_values_def addVars_def model_1_def Model_def
  new_var_def

lemmas ingredient_data_1 =
  ingredient_amounts_def on_hand_1_def recipes_1_def

lemmas interface_defs =
  lookup_def mul_vk_def mul_kv_def plus_r_def variable_def and_then_def addConstr_stmt_def
  compare_def number_def addConstr_def of_const_def of_var_def quicksum_gen_def quicksum_def
  addConstrs_def setObjective_def

lemmas shared_cells =
  index_to_list_def column_def ingredient_usage_def usage_def link_cell_def
  solve_and_print_solution_def optimize_def M_def

lemmas example_data =
  example_chips_data_def ingredient_amounts_def recipes_1_def

text \<open>The cell with the binary variables and the big-M constraints never raises.\<close>

lemma link_cell_eq:
  assumes x: "x = snd (addVars chips INTEGER ''chips'' m0)"
  shows "link_cell chips x m =
     Inr (m\<lparr>vars := vars m @ map (new_var BINARY ''make'') chips,
            constrs := constrs m @ named_constrs (next_id m) ''link_x_y'' chips (map big_M_constraint chips),
            next_id := next_id m + length chips\<rparr>,
          snd (addVars chips BINARY ''make'' m),
          new_handles [] (next_id m) chips)"
proof -
  obtain m1 y where ys: "addVars chips BINARY ''make'' m = (m1, y)"
    by (cases "addVars chips BINARY ''make'' m")
  have y: "y = snd (addVars chips BINARY ''make'' m)"
    and m1: "m1 = m\<lparr>vars := vars m @ map (new_var BINARY ''make'') chips\<rparr>"
    using ys by (auto simp: addVars_def)
  have g: "for_each (\<lambda>c. compare (variable (lookup x c)) LESS_EQUAL (mul_kv (Inr M) (lookup y c))) chips
             = Inr (map big_M_constraint chips)"
    by (rule for_each_map)
       (simp add: x y lookup_addVars compare_def variable_def mul_kv_def and_then_def
          big_M_constraint_def of_var_def M_def)
  have "addConstrs (\<lambda>c. compare (variable (lookup x c)) LESS_EQUAL (mul_kv (Inr M) (lookup y c)))
          chips ''link_x_y'' m1 =
        Inr (m1\<lparr>constrs := constrs m1 @ named_constrs (next_id m1) ''link_x_y'' chips (map big_M_constraint chips),
                next_id := next_id m1 + length chips\<rparr>,
             new_handles [] (next_id m1) chips)"
    by (simp add: addConstrs_eq g)
  then show ?thesis
    unfolding link_cell_def ys
    by (simp add: and_then_def m1 y)
qed

section \<open>Properties of the first notebook\<close>

subsection \<open>The objective\<close>

text \<open>
  C4. The objective handed to the solver is one linear expression, \<open>\<Sum>c. v c * x c\<close> over
  the seven chip variables, to be maximized. The term-by-term sum, the \<open>quicksum\<close> and
  \<open>x.prod(value)\<close> all build that expression, with the coefficient \<open>v c\<close> on each \<open>x c\<close>;
  after the two objective cells the model holds it as its only objective.
\<close>

theorem objective_formulations_agree:
  "objective_term_by_term x_1 value_1 = Inr total_value_expr \<and>
   objective_quicksum chips_1 x_1 value_1 = Inr total_value_expr \<and>
   objective_prod x_1 value_1 = total_value_expr \<and>
   objective_cells chips_1 x_1 value_1 m =
     Inr (m\<lparr>objective := total_value_expr, ModelSense := MAXIMIZE\<rparr>) \<and>
   map (coeff total_value_expr) (getVars model_1) = map snd chip_values \<and>
   (\<forall>a. getValue a total_value_expr =
      1 * a (Var ''chips'' ''one'') + 5 * a (Var ''chips'' ''five'') + 10 * a (Var ''chips'' ''ten'')
      + 25 * a (Var ''chips'' ''twenty-five'') + 100 * a (Var ''chips'' ''one hundred'')
      + 500 * a (Var ''chips'' ''five hundred'') + 1000 * a (Var ''chips'' ''thousand''))"
  by (simp add: objective_cells_def objective_term_by_term_def objective_quicksum_def
      objective_prod_def tupledict_prod_def total_value_expr_def getVars_def value_1_def
      first_notebook_data interface_defs)

subsection \<open>The ingredient constraints\<close>

lemma explicit_feasible:
  "\<exists>mA. explicit_constraints x_1 recipes_1 on_hand_1 m = Inr mA \<and>
     (\<forall>a. feasible mA a = (feasible m a \<and> ingredient_limits a))"
  by (auto simp add: explicit_constraints_def usage_term_by_term_def first_notebook_data
      ingredient_data_1 interface_defs feasible_def within_bounds_def ingredient_limits_def)

lemma loop_feasible:
  "\<exists>mB. loop_constraints ingredients_1 chips_1 x_1 recipes_1 on_hand_1 m = Inr mB \<and>
     (\<forall>a. feasible mB a = (feasible m a \<and> ingredient_limits a))"
  by (auto simp add: loop_constraints_def usage_def first_notebook_data ingredient_data_1
      ingredients_1_def interface_defs
      feasible_def within_bounds_def ingredient_limits_def)

lemma balance_feasible:
  "\<exists>mC h. balance_constraints ingredients_1 chips_1 x_1 recipes_1 on_hand_1 m = Inr (mC, h) \<and>
     (\<forall>a. feasible mC a = (feasible m a \<and> ingredient_limits a))"
  by (auto simp add: balance_constraints_def usage_def first_notebook_data ingredient_data_1
      ingredients_1_def interface_defs
      feasible_def within_bounds_def ingredient_limits_def)

lemma codings_same_inequalities:
  "\<exists>mA mB mC h.
     explicit_constraints x_1 recipes_1 on_hand_1 m = Inr mA \<and>
     loop_constraints ingredients_1 chips_1 x_1 recipes_1 on_hand_1 m = Inr mB \<and>
     balance_constraints ingredients_1 chips_1 x_1 recipes_1 on_hand_1 m = Inr (mC, h) \<and>
     set (map c_body (constrs mA)) = set (map c_body (constrs mB)) \<and>
     map c_body (constrs mB) = map c_body (constrs mC)"
  by (auto simp add: explicit_constraints_def usage_term_by_term_def loop_constraints_def
      balance_constraints_def usage_def first_notebook_data ingredient_data_1 ingredients_1_def
      interface_defs)

text \<open>
  C3. The three codings of the ingredient restrictions (four explicit \<open>addConstr\<close> calls,
  the loop with \<open>quicksum\<close>, the single \<open>addConstrs\<close>) add the same inequalities
  \<open>\<Sum>c. r c i * x c \<le> q i\<close>, one for each of clay, lead, silver and gold: started from the
  same model, all three succeed, the constraints they leave in the model are the same
  inequalities (the explicit coding lists gold before silver), and an assignment is
  feasible under one coding exactly when it is feasible under each of the others.
\<close>

theorem ingredient_codings_equivalent:
  "\<exists>mA mB mC h.
     explicit_constraints x_1 recipes_1 on_hand_1 m = Inr mA \<and>
     loop_constraints ingredients_1 chips_1 x_1 recipes_1 on_hand_1 m = Inr mB \<and>
     balance_constraints ingredients_1 chips_1 x_1 recipes_1 on_hand_1 m = Inr (mC, h) \<and>
     (\<forall>a. feasible mA a = feasible mB a) \<and>
     (\<forall>a. feasible mB a = feasible mC a) \<and>
     (\<forall>a. feasible mA a = (feasible m a \<and> ingredient_limits a)) \<and>
     set (map c_body (constrs mA)) = set (map c_body (constrs mB)) \<and>
     map c_body (constrs mB) = map c_body (constrs mC)"
proof -
  obtain mA mB mC h where
    A: "explicit_constraints x_1 recipes_1 on_hand_1 m = Inr mA" and
    B: "loop_constraints ingredients_1 chips_1 x_1 recipes_1 on_hand_1 m = Inr mB" and
    C: "balance_constraints ingredients_1 chips_1 x_1 recipes_1 on_hand_1 m = Inr (mC, h)" and
    same: "set (map c_body (constrs mA)) = set (map c_body (constrs mB))"
          "map c_body (constrs mB) = map c_body (constrs mC)"
    using codings_same_inequalities [of m] by blast
  have fA: "feasible mA a = (feasible m a \<and> ingredient_limits a)" for a
    using explicit_feasible [of m] A by auto
  have fB: "feasible mB a = (feasible m a \<and> ingredient_limits a)" for a
    using loop_feasible [of m] B by auto
  have fC: "feasible mC a = (feasible m a \<and> ingredient_limits a)" for a
    using balance_feasible [of m] C by auto
  show ?thesis
    using A B C same fA fB fC by blast
qed

lemma recorded_plan_within_limits:
  "feasible model_1 recorded_plan \<and> ingredient_limits recorded_plan"
  by (simp add: feasible_def within_bounds_def in_domain_def is_integral_def ingredient_limits_def
      recorded_plan_def assignment_of_def first_notebook_data)

theorem ingredient_codings_equivalent_witness:
  "\<exists>mA mB mC h.
     explicit_constraints x_1 recipes_1 on_hand_1 model_1 = Inr mA \<and>
     loop_constraints ingredients_1 chips_1 x_1 recipes_1 on_hand_1 model_1 = Inr mB \<and>
     balance_constraints ingredients_1 chips_1 x_1 recipes_1 on_hand_1 model_1 = Inr (mC, h) \<and>
     feasible mA recorded_plan \<and> feasible mB recorded_plan \<and> feasible mC recorded_plan"
  using ingredient_codings_equivalent [of model_1] recorded_plan_within_limits by blast

subsection \<open>Reporting the solution\<close>

lemma print_vars_solved:
  "solution m = Some s \<Longrightarrow>
   print_vars fmt m vs out = (out @ map (\<lambda>v. VarName v @ '': '' @ fmt (X s v)) vs, None)"
  by (induction vs arbitrary: out) (simp_all add: var_X_def)

text \<open>
  C6. After a solve that left a solution, the solution cell prints exactly one line per
  decision variable of the model: the variable's name, a colon (and a space) and its
  solution value, in the order of \<open>getVars\<close>, which is the order in which \<open>addVars\<close>
  appended the variables. This is the reporting code the sources hold; the helper
  \<open>solve_and_print_solution\<close> of the second notebook is imported from a downloaded file
  that they do not hold.
\<close>

theorem solution_cell_lines:
  assumes "solution m = Some s"
  shows "solution_cell fmt m = (map (\<lambda>v. VarName v @ '': '' @ fmt (X s v)) (getVars m), None) \<and>
         length (fst (solution_cell fmt m)) = length (vars m) \<and>
         getVars (fst (addVars ks t n m)) = getVars m @ map (Var n) ks"
  using assms
  by (simp add: solution_cell_def print_vars_solved getVars_def addVars_def new_var_def comp_def)

theorem solution_cell_lines_witness:
  "solution (optimize recorded_solver model_1) = Some \<lparr>ObjVal = 42143, X = recorded_plan\<rparr> \<and>
   solution_cell float_str (optimize recorded_solver model_1) =
     ([''chips[one]: 38.0'', ''chips[five]: 1.0'', ''chips[ten]: 0.0'', ''chips[twenty-five]: 284.0'',
       ''chips[one hundred]: 0.0'', ''chips[five hundred]: 50.0'', ''chips[thousand]: 10.0''], None)"
proof -
  have s: "solution (optimize recorded_solver model_1) = Some \<lparr>ObjVal = 42143, X = recorded_plan\<rparr>"
    by (simp add: optimize_def recorded_solver_def)
  have "getVars (optimize recorded_solver model_1) =
      [Var ''chips'' ''one'', Var ''chips'' ''five'', Var ''chips'' ''ten'',
       Var ''chips'' ''twenty-five'', Var ''chips'' ''one hundred'', Var ''chips'' ''five hundred'',
       Var ''chips'' ''thousand'']"
    by (simp add: getVars_def optimize_def first_notebook_data)
  then show ?thesis
    using solution_cell_lines [OF s, of float_str] s
    by (simp add: recorded_plan_def assignment_of_def float_str_def)
qed

text \<open>
  C5. The cells hold no failure handling of their own. The solution cell reads \<open>v.X\<close> of
  every variable on the assumption that the solve succeeded: when the model holds no
  solution (it was never solved, or the solver found none) and has a variable, the cell
  ends with the library's \<open>AttributeError\<close> and prints nothing; otherwise it ends
  normally. The same error ends the cell that reads \<open>model.ObjVal\<close>.
\<close>

theorem solution_cell_raises:
  assumes "vars m \<noteq> []"
  shows "(solution m = None \<longrightarrow> solution_cell fmt m = ([], Some AttributeError)) \<and>
         (S m = None \<longrightarrow> solution_cell fmt (optimize S m) = ([], Some AttributeError)) \<and>
         snd (solution_cell fmt m) = (if solution m = None then Some AttributeError else None) \<and>
         (solution m = None \<longrightarrow> second_stage S total_chips val_total_chips m = Inl AttributeError)"
proof -
  obtain d ds where v: "vars m = d # ds"
    using assms by (cases "vars m") auto
  have none: "solution_cell fmt m' = ([], Some AttributeError)"
    if "solution m' = None" and "vars m' = d # ds" for m'
    using that by (simp add: solution_cell_def getVars_def var_X_def)
  have some: "snd (solution_cell fmt m) = None" if "solution m \<noteq> None"
    using that by (auto simp: solution_cell_def print_vars_solved)
  have "solution_cell fmt (optimize S m) = ([], Some AttributeError)" if "S m = None"
    using that v by (intro none) (simp_all add: optimize_def)
  moreover have "second_stage S total_chips val_total_chips m = Inl AttributeError"
    if "solution m = None"
    using that by (simp add: second_stage_def model_ObjVal_def and_then_def)
  ultimately show ?thesis
    using none [of m] v some by auto
qed

theorem solution_cell_raises_witness:
  "vars model_1 \<noteq> [] \<and> solution model_1 = None \<and>
   solution_cell float_str model_1 = ([], Some AttributeError) \<and>
   solution_cell float_str (optimize (\<lambda>m. None) model_1) = ([], Some AttributeError)"
proof -
  have v: "vars model_1 \<noteq> []" and s: "solution model_1 = None"
    by (simp_all add: first_notebook_data)
  show ?thesis
    using solution_cell_raises [OF v, of float_str "\<lambda>m. None"] v s by simp
qed

section \<open>Properties of the data of the two notebooks\<close>














section \<open>Properties of the second notebook\<close>

subsection \<open>The big-M constraints\<close>



text \<open>
  C1. The cell adds, for every chip \<open>c\<close>, the constraint \<open>x c \<le> M * y c\<close> with \<open>M = 500\<close>
  under the name \<open>link_x_y[c]\<close>. The constraint ties production to the indicator: an
  assignment within the bounds of the variables (\<open>addVars\<close> gives every \<open>x c\<close> the lower
  bound 0) that satisfies it with \<open>y c = 0\<close> has \<open>x c = 0\<close>. And 500 is a conservative
  bound for the ingredient data: when every chip uses at least 10 units of clay and 5000
  units are on hand, as in the recipes of the first notebook, every non-negative
  assignment that satisfies the clay constraint has \<open>x c \<le> 500\<close> for every chip, so
  with \<open>y c = 1\<close> the big-M constraint holds for it.
\<close>

theorem link_x_y_big_M:
  assumes xs: "addVars chips INTEGER ''chips'' m0 = (m, x)"
    and clay_on_hand: "lookup on_hand ''clay'' = Inr 5000"
    and clay_use: "\<forall>c\<in>set chips. \<exists>r. lookup recipes (c, ''clay'') = Inr r \<and> 10 \<le> r"
  shows "\<exists>m' y lk new clay_limit.
      link_cell chips x m = Inr (m', y, lk) \<and>
      vars m' = vars m @ map (new_var BINARY ''make'') chips \<and>
      constrs m' = constrs m @ new \<and>
      map ConstrName new = map (\<lambda>c. ''link_x_y['' @ c @ '']'') chips \<and>
      map c_body new = map big_M_constraint chips \<and>
      (\<forall>c\<in>set chips. \<forall>a.
         within_bounds m' a \<and> holds a (big_M_constraint c) \<and> a (Var ''make'' c) = 0
           \<longrightarrow> a (Var ''chips'' c) = 0) \<and>
      compare (usage chips x recipes ''clay'') LESS_EQUAL (number (lookup on_hand ''clay''))
        = Inr clay_limit \<and>
      (\<forall>c\<in>set chips. \<forall>a.
         (\<forall>c'\<in>set chips. 0 \<le> a (Var ''chips'' c')) \<and> holds a clay_limit
           \<longrightarrow> a (Var ''chips'' c) \<le> 500 \<and>
               (a (Var ''make'' c) = 1 \<longrightarrow> holds a (big_M_constraint c)))"
proof -
  let ?m' = "m\<lparr>vars := vars m @ map (new_var BINARY ''make'') chips,
            constrs := constrs m @ named_constrs (next_id m) ''link_x_y'' chips (map big_M_constraint chips),
            next_id := next_id m + length chips\<rparr>"
  let ?new = "named_constrs (next_id m) ''link_x_y'' chips (map big_M_constraint chips)"
  have x: "x = snd (addVars chips INTEGER ''chips'' m0)"
    and m: "vars m = vars m0 @ map (new_var INTEGER ''chips'') chips"
    using xs by (auto simp: addVars_def)
  have cell: "link_cell chips x m =
      Inr (?m', snd (addVars chips BINARY ''make'' m), new_handles [] (next_id m) chips)"
    using x by (rule link_cell_eq)
  have zero: "a (Var ''chips'' c) = 0"
    if c: "c \<in> set chips" and wb: "within_bounds ?m' a"
      and h: "holds a (big_M_constraint c)" and y0: "a (Var ''make'' c) = 0" for c a
  proof -
    have "new_var INTEGER ''chips'' c \<in> set (vars ?m')"
      using c by (simp add: m)
    then have "in_domain (new_var INTEGER ''chips'' c) (a (v_ref (new_var INTEGER ''chips'' c)))"
      using wb by (simp add: within_bounds_def list_all_iff)
    then have "0 \<le> a (Var ''chips'' c)"
      by (simp add: in_domain_def new_var_def)
    moreover have "a (Var ''chips'' c) \<le> 0"
      using h y0 by (simp add: big_M_constraint_def)
    ultimately show ?thesis by simp
  qed
  define r where "r c = (case lookup recipes (c, ''clay'') of Inr q \<Rightarrow> q | Inl e \<Rightarrow> 0)" for c
  have r: "lookup recipes (c, ''clay'') = Inr (r c)" "10 \<le> r c" if "c \<in> set chips" for c
    using clay_use that by (auto simp: r_def)
  let ?clay = "Cmp (quicksum (map (\<lambda>c. LinExpr [(r c, Var ''chips'' c)] 0) chips)) LESS_EQUAL (LinExpr [] 5000)"
  have "for_each (\<lambda>c. mul_vk (lookup x c) (lookup recipes (c, ''clay''))) chips
          = Inr (map (\<lambda>c. LinExpr [(r c, Var ''chips'' c)] 0) chips)"
    by (rule for_each_map) (simp add: x lookup_addVars r mul_vk_def and_then_def)
  then have clay: "compare (usage chips x recipes ''clay'') LESS_EQUAL (number (lookup on_hand ''clay''))
          = Inr ?clay"
    by (simp add: usage_def quicksum_gen_def compare_def number_def and_then_def clay_on_hand of_const_def)
  have bound: "a (Var ''chips'' c) \<le> 500"
    if c: "c \<in> set chips" and nonneg: "\<forall>c'\<in>set chips. 0 \<le> a (Var ''chips'' c')"
      and h: "holds a ?clay" for c a
  proof -
    have total: "sum_list (map (\<lambda>c. r c * a (Var ''chips'' c)) chips) \<le> 5000"
      using h by (simp add: getValue_quicksum comp_def)
    have "r c * a (Var ''chips'' c) \<le> sum_list (map (\<lambda>c. r c * a (Var ''chips'' c)) chips)"
    proof (rule sum_list_member_le [OF c])
      fix j assume "j \<in> set chips"
      then show "0 \<le> r j * a (Var ''chips'' j)"
        using r(2) [of j] nonneg by simp
    qed
    moreover have "10 * a (Var ''chips'' c) \<le> r c * a (Var ''chips'' c)"
      using r(2) [OF c] nonneg c by (simp add: mult_right_mono)
    ultimately show ?thesis using total by simp
  qed
  have fits: "holds a (big_M_constraint c)"
    if "a (Var ''chips'' c) \<le> 500" and "a (Var ''make'' c) = 1" for c a
    using that by (simp add: big_M_constraint_def)
  have names: "map ConstrName ?new = map (\<lambda>c. ''link_x_y['' @ c @ '']'') chips"
    by (simp add: named_constrs_name)
  have bodies: "map c_body ?new = map big_M_constraint chips"
    by (simp add: named_constrs_body)
  have v: "vars ?m' = vars m @ map (new_var BINARY ''make'') chips"
    and k: "constrs ?m' = constrs m @ ?new"
    by simp_all
  show ?thesis
    using cell v k names bodies zero clay bound fits by blast
qed



theorem link_x_y_big_M_witness:
  "\<exists>m' y lk clay_limit.
      link_cell chips_1 x_1 model_1 = Inr (m', y, lk) \<and>
      within_bounds m' recorded_plan \<and>
      holds recorded_plan (big_M_constraint ''ten'') \<and>
      recorded_plan (Var ''make'' ''ten'') = 0 \<and>
      recorded_plan (Var ''chips'' ''ten'') = 0 \<and>
      compare (usage chips_1 x_1 recipes_1 ''clay'') LESS_EQUAL (number (lookup on_hand_1 ''clay''))
        = Inr clay_limit \<and>
      holds second_stage_plan clay_limit \<and>
      second_stage_plan (Var ''chips'' ''five hundred'') \<le> 500 \<and>
      second_stage_plan (Var ''make'' ''five hundred'') = 1 \<and>
      holds second_stage_plan (big_M_constraint ''five hundred'')"
proof -
  have h1: "addVars chips_1 INTEGER ''chips'' (Model ''Chip Manufacturing'') = (model_1, x_1)"
    by (simp add: model_1_def x_1_def)
  have h2: "lookup on_hand_1 ''clay'' = Inr 5000"
    by (simp add: first_notebook_data ingredient_data_1 lookup_def)
  have h3: "\<forall>c\<in>set chips_1. \<exists>r. lookup recipes_1 (c, ''clay'') = Inr r \<and> 10 \<le> r"
    by (simp add: first_notebook_data ingredient_data_1 lookup_def)
  obtain m' y lk new clay_limit where
    cell: "link_cell chips_1 x_1 model_1 = Inr (m', y, lk)" and
    v: "vars m' = vars model_1 @ map (new_var BINARY ''make'') chips_1" and
    zero: "\<forall>c\<in>set chips_1. \<forall>a.
         within_bounds m' a \<and> holds a (big_M_constraint c) \<and> a (Var ''make'' c) = 0
           \<longrightarrow> a (Var ''chips'' c) = 0" and
    clay: "compare (usage chips_1 x_1 recipes_1 ''clay'') LESS_EQUAL (number (lookup on_hand_1 ''clay''))
        = Inr clay_limit" and
    bound: "\<forall>c\<in>set chips_1. \<forall>a.
         (\<forall>c'\<in>set chips_1. 0 \<le> a (Var ''chips'' c')) \<and> holds a clay_limit
           \<longrightarrow> a (Var ''chips'' c) \<le> 500 \<and>
               (a (Var ''make'' c) = 1 \<longrightarrow> holds a (big_M_constraint c))"
    using link_x_y_big_M [OF h1 h2 h3] by blast
  have wb: "within_bounds m' recorded_plan"
    by (simp add: within_bounds_def v in_domain_def is_integral_def recorded_plan_def
        assignment_of_def first_notebook_data)
  have link: "holds recorded_plan (big_M_constraint ''ten'')"
    and y0: "recorded_plan (Var ''make'' ''ten'') = 0"
    by (simp_all add: big_M_constraint_def recorded_plan_def assignment_of_def)
  have ten: "''ten'' \<in> set chips_1" and five_hundred: "''five hundred'' \<in> set chips_1"
    by (simp_all add: first_notebook_data)
  have x0: "recorded_plan (Var ''chips'' ''ten'') = 0"
    using zero ten wb link y0 by blast
  have "compare (usage chips_1 x_1 recipes_1 ''clay'') LESS_EQUAL (number (lookup on_hand_1 ''clay''))
      = Inr (Cmp (LinExpr [(18, Var ''chips'' ''one''), (17, Var ''chips'' ''five''),
               (16, Var ''chips'' ''ten''), (13, Var ''chips'' ''twenty-five''),
               (10, Var ''chips'' ''one hundred''), (10, Var ''chips'' ''five hundred''),
               (10, Var ''chips'' ''thousand'')] 0) LESS_EQUAL (LinExpr [] 5000))"
    by (simp add: usage_def first_notebook_data ingredient_data_1 interface_defs)
  then have hc: "holds second_stage_plan clay_limit"
    using clay by (auto simp: second_stage_plan_def assignment_of_def)
  have nonneg: "\<forall>c'\<in>set chips_1. 0 \<le> second_stage_plan (Var ''chips'' c')"
    by (simp add: first_notebook_data second_stage_plan_def assignment_of_def)
  have y1: "second_stage_plan (Var ''make'' ''five hundred'') = 1"
    by (simp add: second_stage_plan_def assignment_of_def)
  have "second_stage_plan (Var ''chips'' ''five hundred'') \<le> 500 \<and>
      holds second_stage_plan (big_M_constraint ''five hundred'')"
    using bound five_hundred nonneg hc y1 by blast
  then show ?thesis
    using cell wb link y0 x0 clay hc y1 by blast
qed

subsection \<open>High and low chips\<close>

lemma sum_list_high_low:
  fixes f :: "string \<Rightarrow> real"
  assumes "distinct chips" and "set high_chips \<subseteq> set chips"
  shows "sum_list (map f high_chips) + sum_list (map f (low_chips chips)) = sum_list (map f chips)"
proof -
  have "distinct high_chips"
    by (simp add: high_chips_def)
  then have "sum_list (map f (filter (\<lambda>c. c \<in> set high_chips) chips)) = sum_list (map f high_chips)"
    using assms by (intro sum_list_filter_mem)
  moreover have "sum_list (map f (filter (\<lambda>c. c \<in> set high_chips) chips))
      + sum_list (map f (filter (\<lambda>c. \<not> c \<in> set high_chips) chips)) = sum_list (map f chips)"
    by (rule sum_list_filter_split)
  ultimately show ?thesis
    by (simp add: low_chips_def)
qed

lemma value_of_chips_Inr:
  assumes "value_of_chips chips_data (snd (addVars chips t n m)) cs = Inr e"
  shows "set cs \<subseteq> set chips"
    and "getValue a e =
      sum_list (map (\<lambda>c. projr (lookup (column value chips_data) c) * a (Var n c)) cs)"
    and "coeff e w =
      sum_list (map (\<lambda>c. if Var n c = w then projr (lookup (column value chips_data) c) else 0) cs)"
proof -
  let ?x = "snd (addVars chips t n m)"
  let ?f = "\<lambda>c. mul_kv (lookup (column value chips_data) c) (lookup ?x c)"
  have e: "e = quicksum (map (\<lambda>k. projr (?f k)) cs)"
    and ok: "\<And>k. k \<in> set cs \<Longrightarrow> ?f k = Inr (projr (?f k))"
    using quicksum_gen_Inr [of ?f cs e] assms by (simp_all add: value_of_chips_def)
  have each: "c \<in> set chips \<and>
      projr (?f c) = LinExpr [(projr (lookup (column value chips_data) c), Var n c)] 0"
    if "c \<in> set cs" for c
    using ok [OF that] by (auto simp: mul_kv_Inr lookup_addVars_Inr)
  show "set cs \<subseteq> set chips"
    using each by auto
  have "map (getValue a) (map (\<lambda>k. projr (?f k)) cs)
      = map (\<lambda>c. projr (lookup (column value chips_data) c) * a (Var n c)) cs"
    using each by simp
  then show "getValue a e =
      sum_list (map (\<lambda>c. projr (lookup (column value chips_data) c) * a (Var n c)) cs)"
    unfolding e getValue_quicksum by (rule arg_cong)
  have "map (\<lambda>e. coeff e w) (map (\<lambda>k. projr (?f k)) cs)
      = map (\<lambda>c. if Var n c = w then projr (lookup (column value chips_data) c) else 0) cs"
    using each by simp
  then show "coeff e w =
      sum_list (map (\<lambda>c. if Var n c = w then projr (lookup (column value chips_data) c) else 0) cs)"
    unfolding e coeff_quicksum by (rule arg_cong)
qed

text \<open>
  C10. \<open>low_chips\<close> is every chip not in \<open>high_chips\<close>, so the two lists are disjoint;
  when the cell that builds the three value expressions runs (which needs every high
  chip among the chips) their union is the chip list, and for a chip list without
  repeated labels \<open>val_high_chips + val_low_chips = val_total_chips\<close> as linear
  expressions: the same value under every assignment and the same coefficient on every
  variable.
\<close>

theorem high_low_partition:
  assumes xs: "addVars chips INTEGER ''chips'' m0 = (m, x)"
    and labels: "distinct chips"
    and cell: "value_expressions chips chips_data x = Inr (val_total_chips, val_high_chips, val_low_chips)"
  shows "set high_chips \<inter> set (low_chips chips) = {} \<and>
         set high_chips \<union> set (low_chips chips) = set chips \<and>
         (\<forall>a. getValue a val_high_chips + getValue a val_low_chips = getValue a val_total_chips) \<and>
         (\<forall>v. coeff val_high_chips v + coeff val_low_chips v = coeff val_total_chips v)"
proof -
  have x: "x = snd (addVars chips INTEGER ''chips'' m0)"
    using xs by simp
  have total: "value_of_chips chips_data (snd (addVars chips INTEGER ''chips'' m0)) chips = Inr val_total_chips"
    and high: "value_of_chips chips_data (snd (addVars chips INTEGER ''chips'' m0)) high_chips = Inr val_high_chips"
    and low: "value_of_chips chips_data (snd (addVars chips INTEGER ''chips'' m0)) (low_chips chips) = Inr val_low_chips"
    using cell by (auto simp: value_expressions_def and_then_Inr x)
  have sub: "set high_chips \<subseteq> set chips"
    using value_of_chips_Inr(1) [OF high] .
  have disjoint: "set high_chips \<inter> set (low_chips chips) = {}"
    by (auto simp: low_chips_def)
  have union: "set high_chips \<union> set (low_chips chips) = set chips"
    using sub by (auto simp: low_chips_def)
  have vals: "getValue a val_high_chips + getValue a val_low_chips = getValue a val_total_chips" for a
    by (simp add: value_of_chips_Inr(2) [OF total] value_of_chips_Inr(2) [OF high]
        value_of_chips_Inr(2) [OF low] sum_list_high_low [OF labels sub])
  have coeffs: "coeff val_high_chips v + coeff val_low_chips v = coeff val_total_chips v" for v
    by (simp add: value_of_chips_Inr(3) [OF total] value_of_chips_Inr(3) [OF high]
        value_of_chips_Inr(3) [OF low] sum_list_high_low [OF labels sub])
  show ?thesis
    using disjoint union vals coeffs by blast
qed

theorem high_low_partition_witness:
  "\<exists>m x vt vh vl.
     addVars (index_to_list example_chips_data) INTEGER ''chips'' (Model ''Poker Chips'') = (m, x) \<and>
     distinct (index_to_list example_chips_data) \<and>
     value_expressions (index_to_list example_chips_data) example_chips_data x = Inr (vt, vh, vl) \<and>
     set high_chips \<union> set (low_chips (index_to_list example_chips_data))
       = set (index_to_list example_chips_data) \<and>
     getValue recorded_plan vh + getValue recorded_plan vl = getValue recorded_plan vt"
proof -
  let ?chips = "index_to_list example_chips_data"
  obtain m x where h1: "addVars ?chips INTEGER ''chips'' (Model ''Poker Chips'') = (m, x)"
    by (cases "addVars ?chips INTEGER ''chips'' (Model ''Poker Chips'')")
  have h2: "distinct ?chips"
    by (simp add: index_to_list_def example_chips_data_def)
  have x: "x = map (\<lambda>k. (k, Var ''chips'' k)) ?chips"
    using h1 tupledict_addVars [OF h2, of INTEGER "''chips''" "Model ''Poker Chips''"] by simp
  have "\<exists>vt vh vl. value_expressions ?chips example_chips_data x = Inr (vt, vh, vl)"
    by (simp add: x value_expressions_def value_of_chips_def high_chips_def low_chips_def
        index_to_list_def example_chips_data_def column_def interface_defs)
  then obtain vt vh vl where h3: "value_expressions ?chips example_chips_data x = Inr (vt, vh, vl)"
    by blast
  show ?thesis
    using high_low_partition [OF h1 h2 h3] h1 h2 h3 by blast
qed

subsection \<open>Logical constraints\<close>

text \<open>
  C8. After the cell with the logical constraints has run, the model holds both
  \<open>y['five hundred'] + y['thousand'] <= 1\<close>, named \<open>at_most_one_high_value\<close>, and
  \<open>y['five hundred'] + y['thousand'] == 1\<close>, named \<open>exactly_one_high_value\<close>. So every
  feasible assignment makes exactly one of the two high-value chip types, in the sense
  of the notebook, where \<open>y c = 1\<close> says that chip \<open>c\<close> is made: one indicator is 1 and
  the other 0, never both and never neither. Through the big-M constraints at most one
  of the two is produced in a positive number. (An indicator may be 1 while nothing of
  the chip is produced; the constraints ask no more.)
\<close>

theorem exactly_one_high_value:
  assumes xs: "addVars chips INTEGER ''chips'' m = (m', x)"
    and kept: "vars m0 = vars m'"
    and cell1: "link_cell chips x m0 = Inr (m1, y, lk)"
    and cell2: "logical_constraints y (low_chips chips) m1 = Inr m2"
  shows "(\<exists>c1 c2. c1 \<in> set (constrs m2) \<and> c2 \<in> set (constrs m2) \<and>
            ConstrName c1 = ''at_most_one_high_value'' \<and>
            c_body c1 = Cmp high_value_sum LESS_EQUAL (LinExpr [] 1) \<and>
            ConstrName c2 = ''exactly_one_high_value'' \<and>
            c_body c2 = Cmp high_value_sum EQUAL (LinExpr [] 1)) \<and>
         (\<forall>a. feasible m2 a \<longrightarrow>
            (a (Var ''make'' ''five hundred'') = 1 \<and> a (Var ''make'' ''thousand'') = 0) \<or>
            (a (Var ''make'' ''five hundred'') = 0 \<and> a (Var ''make'' ''thousand'') = 1)) \<and>
         (\<forall>a. feasible m2 a \<longrightarrow>
            a (Var ''chips'' ''five hundred'') = 0 \<or> a (Var ''chips'' ''thousand'') = 0)"
proof -
  have x: "x = snd (addVars chips INTEGER ''chips'' m)"
    and v0: "vars m0 = vars m @ map (new_var INTEGER ''chips'') chips"
    using xs kept by (auto simp: addVars_def)
  have m1: "m1 = m0\<lparr>vars := vars m0 @ map (new_var BINARY ''make'') chips,
            constrs := constrs m0 @ named_constrs (next_id m0) ''link_x_y'' chips (map big_M_constraint chips),
            next_id := next_id m0 + length chips\<rparr>"
    and y: "y = snd (addVars chips BINARY ''make'' m0)"
    using cell1 link_cell_eq [OF x, of m0] by simp_all
  let ?hv = "plus_r (variable (lookup y ''five hundred'')) (variable (lookup y ''thousand''))"
  obtain tc1 tc2 tc3 tc4 tc5 where
    t1: "compare ?hv LESS_EQUAL (Inr (of_const 1)) = Inr tc1" and
    t2: "compare ?hv EQUAL (Inr (of_const 1)) = Inr tc2" and
    m2: "m2 = m1\<lparr>constrs := constrs m1 @
               [\<lparr>c_id = next_id m1, ConstrName = ''at_most_one_high_value'', c_body = tc1\<rparr>,
                \<lparr>c_id = Suc (next_id m1), ConstrName = ''exactly_one_high_value'', c_body = tc2\<rparr>,
                \<lparr>c_id = Suc (Suc (next_id m1)), ConstrName = ''min_low_value_types'', c_body = tc3\<rparr>,
                \<lparr>c_id = Suc (Suc (Suc (next_id m1))), ConstrName = ''max_low_value_types'', c_body = tc4\<rparr>,
                \<lparr>c_id = Suc (Suc (Suc (Suc (next_id m1)))), ConstrName = ''max_low_value_types'', c_body = tc5\<rparr>],
             next_id := Suc (Suc (Suc (Suc (Suc (next_id m1)))))\<rparr>"
    using cell2 unfolding logical_constraints_def and_then_Inr addConstr_stmt_Inr
    by auto
  have chips: "''five hundred'' \<in> set chips" "''thousand'' \<in> set chips"
    and tc1: "tc1 = Cmp high_value_sum LESS_EQUAL (LinExpr [] 1)"
    using t1 by (auto simp: compare_Inr plus_r_def variable_def and_then_Inr y lookup_addVars_Inr
        of_var_def of_const_def high_value_sum_def)
  have tc2: "tc2 = Cmp high_value_sum EQUAL (LinExpr [] 1)"
    using t2 by (auto simp: compare_Inr plus_r_def variable_def and_then_Inr y lookup_addVars_Inr
        of_var_def of_const_def high_value_sum_def)
  have v2: "vars m2 = vars m0 @ map (new_var BINARY ''make'') chips"
    by (simp add: m2 m1)
  have k2: "constrs m2 =
      constrs m0 @ named_constrs (next_id m0) ''link_x_y'' chips (map big_M_constraint chips) @
      [\<lparr>c_id = next_id m1, ConstrName = ''at_most_one_high_value'', c_body = tc1\<rparr>,
       \<lparr>c_id = Suc (next_id m1), ConstrName = ''exactly_one_high_value'', c_body = tc2\<rparr>,
       \<lparr>c_id = Suc (Suc (next_id m1)), ConstrName = ''min_low_value_types'', c_body = tc3\<rparr>,
       \<lparr>c_id = Suc (Suc (Suc (next_id m1))), ConstrName = ''max_low_value_types'', c_body = tc4\<rparr>,
       \<lparr>c_id = Suc (Suc (Suc (Suc (next_id m1)))), ConstrName = ''max_low_value_types'', c_body = tc5\<rparr>]"
    by (simp add: m2 m1)
  have present: "\<exists>c1 c2. c1 \<in> set (constrs m2) \<and> c2 \<in> set (constrs m2) \<and>
            ConstrName c1 = ''at_most_one_high_value'' \<and>
            c_body c1 = Cmp high_value_sum LESS_EQUAL (LinExpr [] 1) \<and>
            ConstrName c2 = ''exactly_one_high_value'' \<and>
            c_body c2 = Cmp high_value_sum EQUAL (LinExpr [] 1)"
    unfolding k2 tc1 tc2
    by (intro exI [of _ "\<lparr>c_id = next_id m1, ConstrName = ''at_most_one_high_value'', c_body = Cmp high_value_sum LESS_EQUAL (LinExpr [] 1)\<rparr>"]
              exI [of _ "\<lparr>c_id = Suc (next_id m1), ConstrName = ''exactly_one_high_value'', c_body = Cmp high_value_sum EQUAL (LinExpr [] 1)\<rparr>"])
       simp
  have binary: "a (Var ''make'' c) = 0 \<or> a (Var ''make'' c) = 1"
    if "feasible m2 a" and "c \<in> set chips" for a c
  proof -
    have "new_var BINARY ''make'' c \<in> set (vars m2)"
      using that(2) by (simp add: v2)
    then have "in_domain (new_var BINARY ''make'' c) (a (v_ref (new_var BINARY ''make'' c)))"
      using that(1) by (simp add: feasible_def within_bounds_def list_all_iff)
    then show ?thesis
      by (simp add: in_domain_def new_var_def)
  qed
  have one: "a (Var ''make'' ''five hundred'') + a (Var ''make'' ''thousand'') = 1"
    if "feasible m2 a" for a
  proof -
    have "holds a tc2"
      using that by (simp add: feasible_def k2)
    then show ?thesis
      by (simp add: tc2 high_value_sum_def)
  qed
  have exactly: "(a (Var ''make'' ''five hundred'') = 1 \<and> a (Var ''make'' ''thousand'') = 0) \<or>
            (a (Var ''make'' ''five hundred'') = 0 \<and> a (Var ''make'' ''thousand'') = 1)"
    if "feasible m2 a" for a
    using one [OF that] binary [OF that chips(1)] binary [OF that chips(2)] by auto
  have link: "a (Var ''chips'' c) \<le> 500 * a (Var ''make'' c)"
    if "feasible m2 a" and "c \<in> set chips" for a c
  proof -
    have "big_M_constraint c \<in> c_body ` set (constrs m2)"
      using that(2) by (simp add: k2 image_Un named_constrs_set)
    then have "holds a (big_M_constraint c)"
      using that(1) by (auto simp: feasible_def list_all_iff)
    then show ?thesis
      by (simp add: big_M_constraint_def)
  qed
  have at_most: "a (Var ''chips'' ''five hundred'') = 0 \<or> a (Var ''chips'' ''thousand'') = 0"
    if f: "feasible m2 a" for a
  proof -
    have in_x: "0 \<le> a (Var ''chips'' c)" if "c \<in> set chips" for c
    proof -
      have "new_var INTEGER ''chips'' c \<in> set (vars m2)"
        using that by (simp add: v2 v0)
      then have "in_domain (new_var INTEGER ''chips'' c) (a (v_ref (new_var INTEGER ''chips'' c)))"
        using f by (simp add: feasible_def within_bounds_def list_all_iff)
      then show ?thesis
        by (simp add: in_domain_def new_var_def)
    qed
    show ?thesis
      using exactly [OF f] link [OF f chips(1)] link [OF f chips(2)] in_x [OF chips(1)] in_x [OF chips(2)]
      by auto
  qed
  show ?thesis
    using present exactly at_most by blast
qed

lemma logical_cells_example:
  "\<exists>m1 y lk m2.
     link_cell chips_1 x_1 (fst (addVars chips_1 INTEGER ''chips'' (Model ''Poker Chips''))) = Inr (m1, y, lk) \<and>
     logical_constraints y (low_chips chips_1) m1 = Inr m2 \<and>
     feasible m2 second_stage_plan"
  by (simp add: link_cell_def logical_constraints_def low_chips_def high_chips_def in_range_def M_def
      feasible_def within_bounds_def in_domain_def is_integral_def second_stage_plan_def
      assignment_of_def first_notebook_data interface_defs)

theorem exactly_one_high_value_witness:
  "\<exists>m' x m1 y lk m2.
     addVars chips_1 INTEGER ''chips'' (Model ''Poker Chips'') = (m', x) \<and>
     link_cell chips_1 x m' = Inr (m1, y, lk) \<and>
     logical_constraints y (low_chips chips_1) m1 = Inr m2 \<and>
     feasible m2 second_stage_plan \<and>
     ((second_stage_plan (Var ''make'' ''five hundred'') = 1 \<and>
       second_stage_plan (Var ''make'' ''thousand'') = 0) \<or>
      (second_stage_plan (Var ''make'' ''five hundred'') = 0 \<and>
       second_stage_plan (Var ''make'' ''thousand'') = 1))"
proof -
  let ?m' = "fst (addVars chips_1 INTEGER ''chips'' (Model ''Poker Chips''))"
  have h1: "addVars chips_1 INTEGER ''chips'' (Model ''Poker Chips'') = (?m', x_1)"
    by (simp add: x_1_def addVars_def)
  obtain m1 y lk m2 where
    h2: "link_cell chips_1 x_1 ?m' = Inr (m1, y, lk)" and
    h3: "logical_constraints y (low_chips chips_1) m1 = Inr m2" and
    f: "feasible m2 second_stage_plan"
    using logical_cells_example by blast
  have "(second_stage_plan (Var ''make'' ''five hundred'') = 1 \<and>
       second_stage_plan (Var ''make'' ''thousand'') = 0) \<or>
      (second_stage_plan (Var ''make'' ''five hundred'') = 0 \<and>
       second_stage_plan (Var ''make'' ''thousand'') = 1)"
    using exactly_one_high_value [OF h1 refl h2 h3] f by blast
  then show ?thesis
    using h1 h2 h3 f by blast
qed

subsection \<open>Removing the demand constraints\<close>

lemma original_model_Inr:
  assumes "original_model S chips ingredients recipes on_hand chips_data = Inr (m, x, iu)"
  shows "x = snd (addVars chips INTEGER ''chips'' (Model ''Poker Chips''))"
    and "vars m = map (new_var INTEGER ''chips'') chips"
    and "\<exists>cs. length cs = length ingredients \<and>
           constrs m = named_constrs 0 ''ingredient_usage'' ingredients cs"
    and "next_id m = length ingredients"
proof -
  let ?m0 = "fst (addVars chips INTEGER ''chips'' (Model ''Poker Chips''))"
  let ?x = "snd (addVars chips INTEGER ''chips'' (Model ''Poker Chips''))"
  obtain ma iu' obj where
    a: "ingredient_usage ingredients chips ?x recipes on_hand ?m0 = Inr (ma, iu')" and
    r: "m = solve_and_print_solution S (setObjective obj MAXIMIZE ma)" "x = ?x"
    using assms unfolding original_model_def
    by (auto simp: and_then_Inr split: prod.splits)
  obtain cs where cs: "for_each (\<lambda>i. compare (usage chips ?x recipes i) LESS_EQUAL (number (lookup on_hand i))) ingredients = Inr cs"
    and ma: "ma = ?m0\<lparr>constrs := constrs ?m0 @ named_constrs (next_id ?m0) ''ingredient_usage'' ingredients cs,
                  next_id := next_id ?m0 + length ingredients\<rparr>"
    using addConstrs_Inr [OF a [unfolded ingredient_usage_def]] by blast
  show "x = ?x" by (rule r)
  show "vars m = map (new_var INTEGER ''chips'') chips"
    by (simp add: r ma solve_and_print_solution_def addVars_def Model_def)
  show "next_id m = length ingredients"
    by (simp add: r ma solve_and_print_solution_def addVars_def Model_def)
  have "constrs m = named_constrs 0 ''ingredient_usage'' ingredients cs"
    by (simp add: r ma solve_and_print_solution_def addVars_def Model_def)
  then show "\<exists>cs. length cs = length ingredients \<and>
           constrs m = named_constrs 0 ''ingredient_usage'' ingredients cs"
    using for_each_length [OF cs] by blast
qed

lemma meet_demand_cell_Inr:
  assumes cell: "meet_demand_cell S (index_to_list chips_data) x chips_data m = Inr (m', md)"
    and x: "x = snd (addVars (index_to_list chips_data) INTEGER ''chips'' m0)"
    and labels: "distinct (index_to_list chips_data)"
  shows "vars m' = vars m"
    and "constrs m' = constrs m @
           named_constrs (next_id m) ''meet_demand'' (index_to_list chips_data)
             (map demand_constraint chips_data)"
    and "next_id m' = next_id m + length chips_data"
    and "map snd md = [next_id m ..< next_id m + length chips_data]"
proof -
  let ?chips = "index_to_list chips_data"
  let ?g = "\<lambda>c. compare (variable (lookup x c)) GREATER_EQUAL (number (lookup (column demand chips_data) c))"
  obtain ma where a: "addConstrs ?g ?chips ''meet_demand'' m = Inr (ma, md)"
    and m': "m' = solve_and_print_solution S ma"
    using cell unfolding meet_demand_cell_def by (auto simp: and_then_Inr)
  obtain cs where cs: "for_each ?g ?chips = Inr cs"
    and ma: "ma = m\<lparr>constrs := constrs m @ named_constrs (next_id m) ''meet_demand'' ?chips cs,
                  next_id := next_id m + length ?chips\<rparr>"
    and md: "md = new_handles [] (next_id m) ?chips"
    using addConstrs_Inr [OF a] by blast
  have "for_each ?g (map fst chips_data) = Inr (map demand_constraint chips_data)"
  proof (rule for_each_index)
    fix p assume p: "p \<in> set chips_data"
    obtain c row where cr: "p = (c, row)" by (cases p)
    have "lookup (column demand chips_data) c = Inr (demand row)"
      using labels p cr by (intro lookup_column) (simp_all add: index_to_list_def)
    moreover have "lookup x c = Inr (Var ''chips'' c)"
      using p cr by (force simp: x lookup_addVars index_to_list_def)
    ultimately show "?g (fst p) = Inr (demand_constraint p)"
      by (simp add: cr compare_def variable_def number_def and_then_def demand_constraint_def
          of_var_def of_const_def)
  qed
  then have cs': "cs = map demand_constraint chips_data"
    using cs by (simp add: index_to_list_def)
  show "vars m' = vars m"
    by (simp add: m' ma solve_and_print_solution_def)
  show "constrs m' = constrs m @ named_constrs (next_id m) ''meet_demand'' ?chips (map demand_constraint chips_data)"
    by (simp add: m' ma cs' solve_and_print_solution_def)
  show "next_id m' = next_id m + length chips_data"
    by (simp add: m' ma solve_and_print_solution_def index_to_list_def)
  show "map snd md = [next_id m ..< next_id m + length chips_data]"
    using handles_of_new [OF labels, of "next_id m"] by (simp add: md index_to_list_def)
qed

lemma v_budget_cell_Inr:
  assumes "v_budget_cell S chips x chips_data m = Inr (m', vCost, vBudget)"
  shows "vars m' = vars m"
    and "constrs m' = constrs m @
          [\<lparr>c_id = next_id m, ConstrName = ''v_budget'', c_body = Cmp vCost LESS_EQUAL (LinExpr [] 80)\<rparr>]"
    and "next_id m' = Suc (next_id m)"
  using assms unfolding v_budget_cell_def
  by (auto simp: and_then_Inr solve_and_print_solution_def addConstr_def of_const_def split: prod.splits)

lemma t_budget_cell_Inr:
  assumes "t_budget_cell S chips y chips_data vCost m = Inr (m', tBudget)"
  shows "vars m' = vars m"
    and "\<exists>tCost. constrs m' = constrs m @
          [\<lparr>c_id = next_id m, ConstrName = ''t_budget'', c_body = Cmp tCost LESS_EQUAL (LinExpr [] 280)\<rparr>]"
    and "next_id m' = Suc (next_id m)"
  using assms unfolding t_budget_cell_def
  by (auto simp: and_then_Inr solve_and_print_solution_def addConstr_def of_const_def Let_def split: prod.splits)

text \<open>
  C9. \<open>model.remove(meet_demand)\<close> removes the demand constraints \<open>x c \<ge> d c\<close>, one per
  chip, and nothing else. When the cells from the original model to the removal run on
  a chip table without repeated labels, \<open>chips\<close> being its index as the first cell
  binds it, the model before the removal holds the
  ingredient constraints, the demand constraints, the variable-cost budget, the big-M
  constraints and the total-cost budget, in this order; the handles bound to
  \<open>meet_demand\<close> are those of the demand constraints; and the model after the removal is
  the model before it with the demand constraints taken out of the list: the other
  constraints, the variables of both families and everything else are as they were.
\<close>

theorem remove_meet_demand_frame:
  assumes run: "cells_to_removal S (index_to_list chips_data) ingredients recipes on_hand chips_data =
      Inr (before, meet_demand, after)"
    and labels: "distinct (index_to_list chips_data)"
  shows "\<exists>iu md vb lk tb.
      constrs before = iu @ md @ [vb] @ lk @ [tb] \<and>
      map ConstrName iu =
        map (\<lambda>i. ''ingredient_usage['' @ i @ '']'') ingredients \<and>
      map ConstrName md =
        map (\<lambda>c. ''meet_demand['' @ c @ '']'') (index_to_list chips_data) \<and>
      map c_body md = map demand_constraint chips_data \<and>
      map c_id md = map snd meet_demand \<and>
      ConstrName vb = ''v_budget'' \<and>
      map ConstrName lk =
        map (\<lambda>c. ''link_x_y['' @ c @ '']'') (index_to_list chips_data) \<and>
      map c_body lk = map big_M_constraint (index_to_list chips_data) \<and>
      ConstrName tb = ''t_budget'' \<and>
      after = before\<lparr>constrs := iu @ [vb] @ lk @ [tb]\<rparr> \<and>
      vars after = vars before \<and>
      vars before = map (new_var INTEGER ''chips'') (index_to_list chips_data) @
                    map (new_var BINARY ''make'') (index_to_list chips_data)"
proof -
  let ?chips = "index_to_list chips_data"
  let ?ings = "ingredients"
  let ?cd = "chips_data"
  obtain ma x iu_h total_chips mb mc vCost vBudget md y lk_h tBudget where
    c1: "original_model S ?chips ?ings recipes on_hand ?cd = Inr (ma, x, iu_h)" and
    c3: "meet_demand_cell S ?chips x ?cd (maximize_total_chips S total_chips ma) = Inr (mb, meet_demand)" and
    c4: "v_budget_cell S ?chips x ?cd mb = Inr (mc, vCost, vBudget)" and
    c5: "link_cell ?chips x mc = Inr (md, y, lk_h)" and
    c6: "t_budget_cell S ?chips y ?cd vCost md = Inr (before, tBudget)" and
    c7: "after = remove_meet_demand meet_demand before"
    using run unfolding cells_to_removal_def
    by (auto simp: and_then_Inr split: prod.splits)
  let ?ni = "length ?ings" and ?nc = "length ?cd"
  have nc: "length ?chips = ?nc"
    by (simp add: index_to_list_def)
  note o = original_model_Inr [OF c1]
  obtain cs where lcs: "length cs = ?ni"
    and ka: "constrs ma = named_constrs 0 ''ingredient_usage'' ?ings cs"
    using o(3) by blast
  let ?iu = "named_constrs 0 ''ingredient_usage'' ?ings cs"
  let ?m2 = "maximize_total_chips S total_chips ma"
  have m2: "vars ?m2 = vars ma" "constrs ?m2 = constrs ma" "next_id ?m2 = next_id ma"
    by (simp_all add: maximize_total_chips_def solve_and_print_solution_def)
  note d = meet_demand_cell_Inr [OF c3 o(1) labels]
  let ?md = "named_constrs ?ni ''meet_demand'' ?chips (map demand_constraint ?cd)"
  have kb: "constrs mb = ?iu @ ?md" and nb: "next_id mb = ?ni + ?nc" and vb: "vars mb = vars ma"
    and hs: "map snd meet_demand = [?ni ..< ?ni + ?nc]"
    using d by (simp_all add: m2 ka o(4))
  note v = v_budget_cell_Inr [OF c4]
  let ?vb = "\<lparr>c_id = ?ni + ?nc, ConstrName = ''v_budget'', c_body = Cmp vCost LESS_EQUAL (LinExpr [] 80)\<rparr>"
  have kc: "constrs mc = ?iu @ ?md @ [?vb]" and nc': "next_id mc = Suc (?ni + ?nc)" and vc: "vars mc = vars ma"
    using v by (simp_all add: kb nb vb)
  let ?lk = "named_constrs (Suc (?ni + ?nc)) ''link_x_y'' ?chips (map big_M_constraint ?chips)"
  have md: "md = mc\<lparr>vars := vars mc @ map (new_var BINARY ''make'') ?chips,
            constrs := constrs mc @ named_constrs (next_id mc) ''link_x_y'' ?chips (map big_M_constraint ?chips),
            next_id := next_id mc + length ?chips\<rparr>"
    using c5 link_cell_eq [OF o(1), of mc] by simp
  have kd: "constrs md = ?iu @ ?md @ [?vb] @ ?lk" and nd: "next_id md = Suc (?ni + ?nc + ?nc)"
    and vd: "vars md = vars ma @ map (new_var BINARY ''make'') ?chips"
    by (simp_all add: md kc nc' vc nc)
  note t = t_budget_cell_Inr [OF c6]
  obtain tCost where ke': "constrs before = constrs md @
          [\<lparr>c_id = next_id md, ConstrName = ''t_budget'', c_body = Cmp tCost LESS_EQUAL (LinExpr [] 280)\<rparr>]"
    using t(2) by blast
  let ?tb = "\<lparr>c_id = Suc (?ni + ?nc + ?nc), ConstrName = ''t_budget'', c_body = Cmp tCost LESS_EQUAL (LinExpr [] 280)\<rparr>"
  have ke: "constrs before = ?iu @ ?md @ [?vb] @ ?lk @ [?tb]"
    by (simp add: ke' kd nd)
  have ve: "vars before = map (new_var INTEGER ''chips'') ?chips @ map (new_var BINARY ''make'') ?chips"
    by (simp add: t(1) vd o(2))
  let ?H = "set (map snd meet_demand)"
  have H: "?H = {?ni ..< ?ni + ?nc}"
    by (simp add: hs)
  have f_iu: "filter (\<lambda>c. c_id c \<notin> ?H) ?iu = ?iu"
  proof (rule filter_ids_keep)
    fix c assume "c \<in> set ?iu"
    then have "c_id c < 0 + ?ni"
      using named_constrs_ids_in [OF lcs] by blast
    then show "c_id c \<notin> ?H"
      unfolding H by simp
  qed
  have f_md: "filter (\<lambda>c. c_id c \<notin> ?H) ?md = []"
  proof (rule filter_ids_drop)
    fix c assume "c \<in> set ?md"
    moreover have "length (map demand_constraint ?cd) = length ?chips"
      by (simp add: nc)
    ultimately have "?ni \<le> c_id c \<and> c_id c < ?ni + length ?chips"
      by (rule named_constrs_ids_in [rotated])
    then show "c_id c \<in> ?H"
      unfolding H by (simp add: nc)
  qed
  have f_lk: "filter (\<lambda>c. c_id c \<notin> ?H) ?lk = ?lk"
  proof (rule filter_ids_keep)
    fix c assume "c \<in> set ?lk"
    moreover have "length (map big_M_constraint ?chips) = length ?chips"
      by simp
    ultimately have "Suc (?ni + ?nc) \<le> c_id c"
      using named_constrs_ids_in [rotated] by blast
    then show "c_id c \<notin> ?H"
      unfolding H by simp
  qed
  have vbH: "c_id ?vb \<notin> ?H" and tbH: "c_id ?tb \<notin> ?H"
    unfolding H by simp_all
  have "filter (\<lambda>c. c_id c \<notin> ?H) (?iu @ ?md @ [?vb] @ ?lk @ [?tb]) = ?iu @ [?vb] @ ?lk @ [?tb]"
    unfolding filter_append f_iu f_md f_lk using vbH tbH by (simp del: set_map)
  then have after: "after = before\<lparr>constrs := ?iu @ [?vb] @ ?lk @ [?tb]\<rparr>"
    unfolding c7 remove_meet_demand_def remove_def ke by (simp del: set_map)
  have names_iu: "map ConstrName ?iu = map (\<lambda>i. ''ingredient_usage['' @ i @ '']'') ?ings"
    by (simp add: named_constrs_name lcs)
  have names_md: "map ConstrName ?md = map (\<lambda>c. ''meet_demand['' @ c @ '']'') ?chips"
    by (simp add: named_constrs_name nc)
  have bodies_md: "map c_body ?md = map demand_constraint ?cd"
    by (simp add: named_constrs_body nc)
  have ids_md: "map c_id ?md = map snd meet_demand"
    by (simp add: named_constrs_id nc hs)
  have names_lk: "map ConstrName ?lk = map (\<lambda>c. ''link_x_y['' @ c @ '']'') ?chips"
    by (simp add: named_constrs_name)
  have bodies_lk: "map c_body ?lk = map big_M_constraint ?chips"
    by (simp add: named_constrs_body)
  have va: "vars after = vars before"
    by (simp add: after)
  show ?thesis
    apply (rule exI [of _ ?iu], rule exI [of _ ?md], rule exI [of _ ?vb], rule exI [of _ ?lk],
           rule exI [of _ ?tb])
    using ke names_iu names_md bodies_md ids_md names_lk bodies_lk after va ve
    apply simp
    done
qed

lemma cells_to_removal_example:
  "\<exists>before meet_demand after.
     cells_to_removal recorded_solver (index_to_list example_chips_data) (index_to_list ingredient_amounts)
       recipes_1 ingredient_amounts example_chips_data =
       Inr (before, meet_demand, after) \<and>
     length meet_demand = 7"
  by (simp add: cells_to_removal_def original_model_def total_chips_expr_def
      maximize_total_chips_def meet_demand_cell_def v_budget_cell_def t_budget_cell_def
      remove_meet_demand_def remove_def shared_cells example_data recorded_solver_def Let_def
      addVars_def Model_def new_var_def interface_defs)

theorem remove_meet_demand_frame_witness:
  "\<exists>before meet_demand after.
     cells_to_removal recorded_solver (index_to_list example_chips_data) (index_to_list ingredient_amounts)
       recipes_1 ingredient_amounts example_chips_data =
       Inr (before, meet_demand, after) \<and>
     distinct (index_to_list example_chips_data) \<and>
     length meet_demand = 7 \<and>
     vars after = vars before \<and>
     length (constrs before) = 20 \<and>
     length (constrs after) = 13"
proof -
  obtain before meet_demand after where
    run: "cells_to_removal recorded_solver (index_to_list example_chips_data) (index_to_list ingredient_amounts)
       recipes_1 ingredient_amounts example_chips_data =
       Inr (before, meet_demand, after)" and
    seven: "length meet_demand = 7"
    using cells_to_removal_example by blast
  have labels: "distinct (index_to_list example_chips_data)"
    by (simp add: index_to_list_def example_chips_data_def)
  obtain iu md vb lk tb where
    k: "constrs before = iu @ md @ [vb] @ lk @ [tb]" and
    n_iu: "map ConstrName iu =
        map (\<lambda>i. ''ingredient_usage['' @ i @ '']'') (index_to_list ingredient_amounts)" and
    n_md: "map c_id md = map snd meet_demand" and
    n_lk: "map ConstrName lk =
        map (\<lambda>c. ''link_x_y['' @ c @ '']'') (index_to_list example_chips_data)" and
    a: "after = before\<lparr>constrs := iu @ [vb] @ lk @ [tb]\<rparr>" and
    v: "vars after = vars before"
    using remove_meet_demand_frame [OF run labels] by blast
  have "length (map ConstrName iu) = 4"
    unfolding n_iu by (simp add: index_to_list_def ingredient_amounts_def)
  then have l_iu: "length iu = 4" by simp
  have "length (map ConstrName lk) = 7"
    unfolding n_lk by (simp add: index_to_list_def example_chips_data_def)
  then have l_lk: "length lk = 7" by simp
  have "length (map c_id md) = 7"
    unfolding n_md by (simp add: seven)
  then have l_md: "length md = 7" by simp
  have "length (constrs before) = 20" "length (constrs after) = 13"
    by (simp_all add: k a l_iu l_lk l_md)
  then show ?thesis
    using run labels seven v by blast
qed

subsection \<open>Hierarchical optimization by hand\<close>

lemma first_stage_Inr:
  assumes "first_stage S chips ingredients recipes on_hand chips_data = Inr (m1, total_chips, val_total_chips)"
  shows "total_chips = tupledict_sum (snd (addVars chips INTEGER ''chips'' (Model ''Poker Chips'')))"
    and "value_of_chips chips_data (snd (addVars chips INTEGER ''chips'' (Model ''Poker Chips''))) chips
           = Inr val_total_chips"
    and "\<exists>p. m1 = optimize S p \<and> objective p = total_chips \<and> ModelSense p = MAXIMIZE \<and>
           optimize_calls p = 0"
proof -
  let ?ma = "fst (addVars chips INTEGER ''chips'' (Model ''Poker Chips''))"
  let ?x = "snd (addVars chips INTEGER ''chips'' (Model ''Poker Chips''))"
  let ?mb = "fst (addVars chips BINARY ''make'' ?ma)"
  let ?y = "snd (addVars chips BINARY ''make'' ?ma)"
  obtain vh vl vCost fCost mc iu md p30 me lk where
    v: "value_expressions chips chips_data ?x = Inr (val_total_chips, vh, vl)" and
    c1: "ingredient_usage ingredients chips ?x recipes on_hand ?mb = Inr (mc, iu)" and
    c2: "addConstrs (\<lambda>c. compare (variable (lookup ?x c)) LESS_EQUAL
                  (Inr (expr_scale 0.3 (tupledict_sum ?x)))) chips ''percent30'' mc = Inr (md, p30)" and
    c3: "addConstrs (\<lambda>c. compare (variable (lookup ?x c)) LESS_EQUAL
                  (mul_kv (Inr M) (lookup ?y c))) chips ''link_x_y'' md = Inr (me, lk)" and
    m1: "m1 = solve_and_print_solution S (setObjective (tupledict_sum ?x) MAXIMIZE
               (fst (addConstr (Cmp (expr_add vCost fCost) LESS_EQUAL (of_const 220)) ''t_budget'' me)))" and
    t: "total_chips = tupledict_sum ?x"
    using assms unfolding first_stage_def
    by (auto simp: Let_def and_then_Inr case_prod_beta)
  show "total_chips = tupledict_sum ?x" by (rule t)
  show "value_of_chips chips_data ?x chips = Inr val_total_chips"
    using v by (auto simp: value_expressions_def and_then_Inr)
  have "optimize_calls me = 0"
    using addConstrs_calls [OF c3] addConstrs_calls [OF c2]
      addConstrs_calls [OF c1 [unfolded ingredient_usage_def]]
    by (simp add: addVars_def Model_def)
  then show "\<exists>p. m1 = optimize S p \<and> objective p = total_chips \<and> ModelSense p = MAXIMIZE \<and>
           optimize_calls p = 0"
    unfolding m1 solve_and_print_solution_def t
    by (intro exI [of _ "setObjective (tupledict_sum ?x) MAXIMIZE
               (fst (addConstr (Cmp (expr_add vCost fCost) LESS_EQUAL (of_const 220)) ''t_budget'' me))"])
       (simp add: setObjective_def addConstr_def)
qed

text \<open>
  C2. The hierarchical procedure written by hand solves twice. The first cell maximizes
  the total number of chips \<open>\<Sum>c. x c\<close> and hands the model to the solver; the second
  cell reads the value \<open>z\<close> the solver reported, adds the constraint
  \<open>\<Sum>c. x c \<ge> 0.9 * z\<close> to the same model, sets the total chip value as the objective to
  maximize and hands the model to the solver a second time. So every assignment
  feasible in the second model keeps at least 90 percent of the first optimum.
\<close>

theorem hierarchical_keeps_ninety_percent:
  assumes run: "diy_hierarchical S chips ingredients recipes on_hand chips_data = Inr (model1, model2, z)"
  shows "\<exists>p1 p2 multi_obj.
     model1 = optimize S p1 \<and> optimize_calls p1 = 0 \<and>
     ModelSense p1 = MAXIMIZE \<and>
     (\<forall>a. getValue a (objective p1) = (\<Sum>c\<in>set chips. a (Var ''chips'' c))) \<and>
     model_ObjVal model1 = Inr z \<and>
     model2 = optimize S p2 \<and> optimize_calls model2 = 2 \<and>
     vars p2 = vars model1 \<and>
     constrs p2 = constrs model1 @ [multi_obj] \<and>
     c_body multi_obj = Cmp (objective p1) GREATER_EQUAL (LinExpr [] (0.9 * z)) \<and>
     ModelSense p2 = MAXIMIZE \<and>
     value_of_chips chips_data
       (snd (addVars chips INTEGER ''chips'' (Model ''Poker Chips'')))
       chips = Inr (objective p2) \<and>
     (\<forall>a. feasible model2 a \<longrightarrow>
        0.9 * z \<le> (\<Sum>c\<in>set chips. a (Var ''chips'' c)))"
proof -
  let ?chips = "chips"
  let ?x = "snd (addVars ?chips INTEGER ''chips'' (Model ''Poker Chips''))"
  obtain total_chips val_total_chips multi_obj where
    s1: "first_stage S ?chips ingredients recipes on_hand chips_data =
           Inr (model1, total_chips, val_total_chips)" and
    s2: "second_stage S total_chips val_total_chips model1 = Inr (model2, z, multi_obj)"
    using run unfolding diy_hierarchical_def
    by (auto simp: and_then_Inr split: prod.splits)
  note f = first_stage_Inr [OF s1]
  obtain p1 where p1: "model1 = optimize S p1" "objective p1 = total_chips"
    "ModelSense p1 = MAXIMIZE" "optimize_calls p1 = 0"
    using f(3) by blast
  have total: "getValue a total_chips = (\<Sum>c\<in>set ?chips. a (Var ''chips'' c))" for a
    unfolding f(1) by (rule getValue_tupledict_sum)
  let ?k = "\<lparr>c_id = next_id model1, ConstrName = [],
             c_body = Cmp total_chips GREATER_EQUAL (LinExpr [] (0.9 * z))\<rparr>"
  let ?p2 = "setObjective val_total_chips MAXIMIZE
               (fst (addConstr (Cmp total_chips GREATER_EQUAL (of_const (0.9 * z))) [] model1))"
  have z: "model_ObjVal model1 = Inr z" and m2: "model2 = optimize S ?p2"
    using s2 unfolding second_stage_def solve_and_print_solution_def
    by (auto simp: and_then_Inr case_prod_beta)
  have calls: "optimize_calls model2 = 2"
    by (simp add: m2 p1 optimize_def setObjective_def addConstr_def)
  have v2: "vars ?p2 = vars model1" and k2: "constrs ?p2 = constrs model1 @ [?k]"
    and o2: "objective ?p2 = val_total_chips" and s2': "ModelSense ?p2 = MAXIMIZE"
    by (simp_all add: setObjective_def addConstr_def of_const_def)
  have keep: "0.9 * z \<le> (\<Sum>c\<in>set ?chips. a (Var ''chips'' c))" if "feasible model2 a" for a
  proof -
    have "holds a (Cmp total_chips GREATER_EQUAL (LinExpr [] (0.9 * z)))"
      using that by (simp add: feasible_def m2 k2 of_const_def del: holds.simps)
    then show ?thesis
      by (simp add: total)
  qed
  show ?thesis
    apply (rule exI [of _ p1], rule exI [of _ ?p2], rule exI [of _ ?k])
    using p1 total z m2 calls v2 k2 o2 s2' f(2) keep
    apply simp
    done
qed

lemma diy_hierarchical_example:
  "\<exists>model1 model2.
     diy_hierarchical recorded_stage_solver (index_to_list example_chips_data) (index_to_list ingredient_amounts)
       recipes_1 ingredient_amounts example_chips_data =
       Inr (model1, model2, 367) \<and>
     feasible model2 second_stage_plan"
  by (simp add: diy_hierarchical_def first_stage_def second_stage_def value_expressions_def
      value_of_chips_def tupledict_sum_def model_ObjVal_def high_chips_def low_chips_def
      shared_cells example_data Let_def addVars_def Model_def
      new_var_def interface_defs recorded_stage_solver_def feasible_def within_bounds_def
      in_domain_def is_integral_def second_stage_plan_def assignment_of_def)

theorem hierarchical_keeps_ninety_percent_witness:
  "\<exists>model1 model2.
     diy_hierarchical recorded_stage_solver (index_to_list example_chips_data) (index_to_list ingredient_amounts)
       recipes_1 ingredient_amounts example_chips_data =
       Inr (model1, model2, 367) \<and>
     feasible model2 second_stage_plan \<and>
     0.9 * 367 \<le> (\<Sum>c\<in>set (index_to_list example_chips_data).
                      second_stage_plan (Var ''chips'' c))"
proof -
  obtain model1 model2 where
    run: "diy_hierarchical recorded_stage_solver (index_to_list example_chips_data) (index_to_list ingredient_amounts)
       recipes_1 ingredient_amounts example_chips_data =
       Inr (model1, model2, 367)" and
    f: "feasible model2 second_stage_plan"
    using diy_hierarchical_example by blast
  have "0.9 * 367 \<le> (\<Sum>c\<in>set (index_to_list example_chips_data).
                      second_stage_plan (Var ''chips'' c))"
    using hierarchical_keeps_ninety_percent [OF run] f by blast
  then show ?thesis
    using run f by blast
qed

end
